theory Spec2Isabelle
  imports Main "HOL-Library.AList"
begin

section \<open>Text primitives of the host language\<close>

text \<open>
  The analyzer works on Python \<open>str\<close> values. A text is modelled as a \<open>string\<close> whose
  characters are read as code points below 256; the character classes below are the ones
  Python assigns to these code points (\<open>str.isspace\<close>, \<open>str.lower\<close>, the class \<open>\w\<close> of
  \<open>re\<close> on \<open>str\<close> patterns). Code points from 256 on are outside the model.
\<close>

definition py_isspace :: "char \<Rightarrow> bool" where
  "py_isspace c = ((of_char c :: nat) \<in> {9, 10, 11, 12, 13, 28, 29, 30, 31, 32, 133, 160})"

definition py_lower_char :: "char \<Rightarrow> char" where
  "py_lower_char c =
     (let n = (of_char c :: nat) in
      if (65 \<le> n \<and> n \<le> 90) \<or> (192 \<le> n \<and> n \<le> 222 \<and> n \<noteq> 215)
      then char_of (n + 32) else c)"

definition is_ascii_letter :: "char \<Rightarrow> bool" where
  \<comment> \<open>the class \<open>[a-zA-Z]\<close>\<close>
  "is_ascii_letter c =
     (let n = (of_char c :: nat) in (65 \<le> n \<and> n \<le> 90) \<or> (97 \<le> n \<and> n \<le> 122))"

definition is_word_char :: "char \<Rightarrow> bool" where
  \<comment> \<open>the class \<open>\w\<close>: alphanumeric code points and the underscore\<close>
  "is_word_char c =
     (let n = (of_char c :: nat) in
      (48 \<le> n \<and> n \<le> 57) \<or> (65 \<le> n \<and> n \<le> 90) \<or> n = 95 \<or> (97 \<le> n \<and> n \<le> 122) \<or>
      n \<in> {170, 178, 179, 181, 185, 186, 188, 189, 190} \<or>
      (192 \<le> n \<and> n \<noteq> 215 \<and> n \<noteq> 247))"

definition lower :: "string \<Rightarrow> string" where
  \<comment> \<open>\<open>s.lower()\<close>\<close>
  "lower s = map py_lower_char s"

definition strip :: "string \<Rightarrow> string" where
  \<comment> \<open>\<open>s.strip()\<close>\<close>
  "strip s = rev (dropWhile py_isspace (rev (dropWhile py_isspace s)))"

fun split_ws_acc :: "string \<Rightarrow> string \<Rightarrow> string list" where
  "split_ws_acc cur [] = (if cur = [] then [] else [rev cur])"
| "split_ws_acc cur (c # cs) =
     (if py_isspace c
      then (if cur = [] then split_ws_acc [] cs else rev cur # split_ws_acc [] cs)
      else split_ws_acc (c # cur) cs)"

definition split_ws :: "string \<Rightarrow> string list" where
  \<comment> \<open>\<open>s.split()\<close>: the maximal runs of non-whitespace characters\<close>
  "split_ws s = split_ws_acc [] s"

fun join :: "string \<Rightarrow> string list \<Rightarrow> string" where
  \<comment> \<open>\<open>sep.join(xs)\<close>\<close>
  "join sep [] = []"
| "join sep [x] = x"
| "join sep (x # y # ys) = x @ sep @ join sep (y # ys)"

definition endswith :: "string \<Rightarrow> string \<Rightarrow> bool" where
  "endswith s suffix = (length suffix \<le> length s \<and> drop (length s - length suffix) s = suffix)"

fun contains :: "string \<Rightarrow> string \<Rightarrow> bool" where
  \<comment> \<open>\<open>w in t\<close> on strings: \<open>w\<close> occurs in \<open>t\<close> as a contiguous run\<close>
  "contains w [] = (w = [])"
| "contains w (c # cs) = (take (length w) (c # cs) = w \<or> contains w cs)"

definition py_take :: "int \<Rightarrow> 'a list \<Rightarrow> 'a list" where
  \<comment> \<open>the slice \<open>xs[:m]\<close>; a negative bound counts from the end\<close>
  "py_take m xs = (if 0 \<le> m then take (nat m) xs else take (length xs - nat (- m)) xs)"

definition sorted_desc :: "('a \<Rightarrow> int) \<Rightarrow> 'a list \<Rightarrow> 'a list" where
  \<comment> \<open>\<open>sorted(xs, key=f, reverse=True)\<close>: stable, equal keys keep their order\<close>
  "sorted_desc f xs = sort_key (\<lambda>x. - f x) xs"

section \<open>Regular expressions of the pattern tables\<close>

text \<open>
  Every pattern of the analyzer is either \<open>\b(a1|...|an)\b\<close> for literal alternatives, or
  \<open>\?$\<close>. All are compiled with \<open>re.IGNORECASE\<close>. \<open>search\<close> is \<open>pattern.search(text)\<close>
  read as a truth value: some position of the text admits a match.
\<close>

datatype regex = Words "string list" | QuestionEnd

definition word_at :: "string \<Rightarrow> nat \<Rightarrow> bool" where
  "word_at t i = (i < length t \<and> is_word_char (t ! i))"

definition boundary :: "string \<Rightarrow> nat \<Rightarrow> bool" where
  \<comment> \<open>\<open>\b\<close> at position \<open>i\<close>: exactly one side is a word character\<close>
  "boundary t i = ((0 < i \<and> word_at t (i - 1)) \<noteq> word_at t i)"

fun ci_prefix :: "string \<Rightarrow> string \<Rightarrow> bool" where
  \<comment> \<open>the literal matches at the start of the text, ignoring case\<close>
  "ci_prefix [] t = True"
| "ci_prefix (p # ps) [] = False"
| "ci_prefix (p # ps) (c # cs) = (py_lower_char c = py_lower_char p \<and> ci_prefix ps cs)"

fun matches_at :: "regex \<Rightarrow> string \<Rightarrow> nat \<Rightarrow> bool" where
  "matches_at (Words alts) t i =
     (boundary t i \<and>
      list_ex (\<lambda>a. ci_prefix a (drop i t) \<and> boundary t (i + length a)) alts)"
| "matches_at QuestionEnd t i =
     (i < length t \<and> t ! i = CHR ''?'' \<and>
      (Suc i = length t \<or> (Suc (Suc i) = length t \<and> t ! Suc i = CHR 0x0A)))"

definition search :: "regex \<Rightarrow> string \<Rightarrow> bool" where
  "search r t = list_ex (matches_at r t) [0..<Suc (length t)]"

function findall_words :: "string \<Rightarrow> nat \<Rightarrow> string list" where
  \<comment> \<open>\<open>re.findall(r'\b[a-zA-Z]{3,}\b', t)\<close>, scanning from position \<open>i\<close>\<close>
  "findall_words t i =
     (if length t < i then []
      else let k = length (takeWhile is_ascii_letter (drop i t)) in
        if boundary t i \<and> 3 \<le> k \<and> boundary t (i + k)
        then take k (drop i t) # findall_words t (i + k)
        else findall_words t (Suc i))"
  by pat_completeness auto
termination
  by (relation "measure (\<lambda>(t, i). Suc (length t) - i)") auto

definition sentence_break :: "char \<Rightarrow> bool" where
  \<comment> \<open>the class \<open>[.!?\n]\<close>\<close>
  "sentence_break c = (c \<in> set [CHR ''.'', CHR ''!'', CHR ''?'', CHR 0x0A])"

fun split_sentences :: "string \<Rightarrow> string list" where
  \<comment> \<open>\<open>re.split(r'[.!?\n]', text)\<close>\<close>
  "split_sentences [] = [[]]"
| "split_sentences (c # cs) =
     (if sentence_break c then [] # split_sentences cs
      else (case split_sentences cs of [] \<Rightarrow> [[c]] | s # ss \<Rightarrow> (c # s) # ss))"

section \<open>NicheAnalyzer\<close>

definition PAIN_PATTERNS :: "regex list" where
  "PAIN_PATTERNS =
    [Words [''struggle'', ''struggling'', ''difficult'', ''hard to'', ''can't'', ''cannot'',
            ''unable to''],
     Words [''frustrated'', ''frustrating'', ''annoying'', ''annoyed'', ''hate'', ''hating''],
     Words [''problem'', ''issue'', ''bug'', ''broken'', ''doesn't work'', ''not working''],
     Words [''wish there was'', ''if only'', ''would be nice if''],
     Words [''tired of'', ''sick of'', ''fed up with''],
     Words [''waste of time'', ''time consuming'', ''takes forever''],
     Words [''expensive'', ''overpriced'', ''costs too much'', ''can't afford''],
     Words [''complicated'', ''confusing'', ''complex'', ''overwhelming'']]"

definition QUESTION_PATTERNS :: "regex list" where
  "QUESTION_PATTERNS =
    [Words [''how do I'', ''how can I'', ''how to'', ''what's the best way''],
     Words [''anyone know'', ''does anyone'', ''has anyone''],
     Words [''looking for'', ''searching for'', ''need help with'', ''need a''],
     Words [''recommend'', ''suggestion'', ''advice'', ''tips''],
     Words [''alternative to'', ''replacement for'', ''instead of''],
     Words [''is there a'', ''are there any''],
     QuestionEnd]"

definition REQUEST_PATTERNS :: "regex list" where
  "REQUEST_PATTERNS =
    [Words [''wish'', ''want'', ''need'', ''require'', ''would love''],
     Words [''should have'', ''must have'', ''needs to have''],
     Words [''feature request'', ''suggestion'', ''idea''],
     Words [''please add'', ''can you add'', ''would be great if'']]"

definition SOLUTION_PATTERNS :: "regex list" where
  "SOLUTION_PATTERNS =
    [Words [''I use'', ''I'm using'', ''we use'', ''currently using''],
     Words [''switched to'', ''moved to'', ''migrated to''],
     Words [''recommend'', ''love'', ''great tool'', ''best tool''],
     Words [''solved by'', ''fixed by'', ''helped by'']]"

definition BELIEF_PATTERNS :: "regex list" where
  "BELIEF_PATTERNS =
    [Words [''I think'', ''I believe'', ''in my opinion'', ''IMO'', ''IMHO''],
     Words [''the problem is'', ''the issue is'', ''the truth is''],
     Words [''people don't realize'', ''most people think''],
     Words [''the best approach'', ''the right way'', ''should be'']]"

definition compiled_patterns :: "string \<Rightarrow> regex list" where
  \<comment> \<open>\<open>self.compiled_patterns.get(pattern_type, [])\<close>\<close>
  "compiled_patterns pattern_type =
     (if pattern_type = ''pain'' then PAIN_PATTERNS
      else if pattern_type = ''question'' then QUESTION_PATTERNS
      else if pattern_type = ''request'' then REQUEST_PATTERNS
      else if pattern_type = ''solution'' then SOLUTION_PATTERNS
      else if pattern_type = ''belief'' then BELIEF_PATTERNS
      else [])"

definition matches_patterns :: "string \<Rightarrow> string \<Rightarrow> bool" where
  "matches_patterns text pattern_type =
     list_ex (\<lambda>p. search p text) (compiled_patterns pattern_type)"

definition extract_sentence_with_pattern :: "string \<Rightarrow> string \<Rightarrow> string list" where
  "extract_sentence_with_pattern text pattern_type =
     filter (\<lambda>sentence. sentence \<noteq> [] \<and> matches_patterns sentence pattern_type)
       (map strip (split_sentences text))"

text \<open>
  A post is a dictionary; a key may be absent (\<open>None\<close>). In the type \<open>post\<close> a text field
  that is present holds a string; dictionaries whose keys hold other values are the type
  \<open>any_post\<close> further down, on which \<open>categorize_post_by_intent\<close> can fail. The key \<open>id\<close>
  is written \<open>post_id\<close>; \<open>created_utc\<close> is kept as an integer number of seconds.
\<close>

record post =
  post_id :: "string option"
  title :: "string option"
  selftext :: "string option"
  body :: "string option"
  score :: "int option"
  num_comments :: "int option"
  url :: "string option"
  created_utc :: "int option"
  subreddit :: "string option"

definition get_or :: "'a option \<Rightarrow> 'a \<Rightarrow> 'a" where
  \<comment> \<open>\<open>d.get(key, default)\<close> on the looked-up field\<close>
  "get_or v d = (case v of None \<Rightarrow> d | Some x \<Rightarrow> x)"

record insights =
  pain_points :: "string list"
  questions :: "string list"
  requests :: "string list"
  solutions :: "string list"
  beliefs :: "string list"

definition post_body :: "post \<Rightarrow> string" where
  \<comment> \<open>\<open>post.get('selftext', '') or post.get('body', '')\<close>\<close>
  "post_body p = (if get_or (selftext p) [] \<noteq> [] then get_or (selftext p) [] else get_or (body p) [])"

definition analyze_post :: "post \<Rightarrow> insights" where
  "analyze_post p =
     (let full_text = get_or (title p) [] @ ''. '' @ post_body p in
      \<lparr>pain_points = extract_sentence_with_pattern full_text ''pain'',
       questions = extract_sentence_with_pattern full_text ''question'',
       requests = extract_sentence_with_pattern full_text ''request'',
       solutions = extract_sentence_with_pattern full_text ''solution'',
       beliefs = extract_sentence_with_pattern full_text ''belief''\<rparr>)"

definition showcase_phrases :: "string list" where
  "showcase_phrases = [''i made'', ''i built'', ''i created'', ''check out'', ''showcase'']"

definition categorize_post_by_intent :: "post \<Rightarrow> string" where
  "categorize_post_by_intent p =
     (let t = lower (get_or (title p) []) in
      if CHR ''?'' \<in> set t \<or> matches_patterns t ''question'' then ''question''
      else if matches_patterns t ''pain'' then ''complaint''
      else if matches_patterns t ''request'' then ''request''
      else if list_ex (\<lambda>word. contains word t) showcase_phrases then ''showcase''
      else ''discussion'')"

record InsightCategory =
  ic_pain_points :: "string list"
  ic_questions :: "string list"
  ic_frustrations :: "string list"
  ic_requests :: "string list"
  ic_solutions_mentioned :: "string list"
  ic_beliefs :: "string list"
  ic_perspectives :: "string list"

record opportunity =
  o_type :: string
  o_signal :: string
  o_opportunity :: string

definition generate_saas_opportunities :: "InsightCategory \<Rightarrow> opportunity list" where
  "generate_saas_opportunities ins =
     map (\<lambda>pain. \<lparr>o_type = ''pain_point'', o_signal = pain,
                  o_opportunity = ''Tool to address: '' @ take 100 pain @ ''...''\<rparr>)
         (take 10 (ic_pain_points ins))
     @ map (\<lambda>question. \<lparr>o_type = ''question'', o_signal = question,
                  o_opportunity = ''Solution that answers: '' @ take 100 question @ ''...''\<rparr>)
         (take 10 (ic_questions ins))
     @ map (\<lambda>request. \<lparr>o_type = ''feature_request'', o_signal = request,
                  o_opportunity = ''Build feature: '' @ take 100 request @ ''...''\<rparr>)
         (take 10 (ic_requests ins))"

definition stopwords :: "string list" where
  "stopwords =
    [''the'', ''a'', ''an'', ''and'', ''or'', ''but'', ''in'', ''on'', ''at'', ''to'', ''for'',
     ''of'', ''with'', ''by'', ''from'', ''is'', ''are'', ''was'', ''were'', ''be'', ''been'',
     ''being'', ''have'', ''has'', ''had'', ''do'', ''does'', ''did'', ''will'', ''would'',
     ''could'', ''should'', ''may'', ''might'', ''must'', ''can'', ''this'', ''that'',
     ''these'', ''those'', ''i'', ''you'', ''he'', ''she'', ''it'', ''we'', ''they'', ''my'',
     ''your'', ''his'', ''her'', ''its'', ''our'', ''their'', ''what'', ''which'', ''who'',
     ''when'', ''where'', ''why'', ''how'', ''all'', ''each'', ''every'', ''both'', ''few'',
     ''more'', ''most'', ''other'', ''some'', ''such'', ''no'', ''not'', ''only'', ''same'',
     ''so'', ''than'', ''too'', ''very'', ''just'', ''also'', ''now'', ''here'', ''there'',
     ''about'', ''into'', ''over'', ''after'', ''before'', ''up'', ''down'', ''out'', ''off'',
     ''if'', ''then'', ''else'', ''because'', ''as'', ''until'', ''while'', ''during'',
     ''through'', ''again'', ''once'', ''any'', ''get'', ''got'', ''like'', ''know'', ''think'',
     ''want'', ''need'', ''use'', ''using'', ''used'', ''new'', ''first'', ''last'', ''one'',
     ''two'', ''way'', ''even'', ''well'', ''back'', ''still'', ''going'', ''make'', ''made'',
     ''anyone'', ''someone'', ''everyone'', ''something'', ''anything'', ''everything'',
     ''really'', ''much'', ''many'', ''dont'', ''don't'', ''im'', ''i'm'', ''ive'', ''i've'']"

text \<open>
  A \<open>Counter\<close> is a dictionary from words to counts; it keeps its keys in the order of
  their first insertion, so it is an association list. \<open>most_common(n)\<close> is
  \<open>heapq.nlargest(n, items, key=count)\<close>: the first \<open>n\<close> items of the stable descending
  sort, and no item when \<open>n\<close> is not positive.
\<close>

definition counter_update :: "(string \<times> nat) list \<Rightarrow> string list \<Rightarrow> (string \<times> nat) list" where
  "counter_update counts ws =
     fold (\<lambda>w c. AList.update w (get_or (map_of c w) 0 + 1) c) ws counts"

definition most_common :: "int \<Rightarrow> (string \<times> nat) list \<Rightarrow> (string \<times> nat) list" where
  "most_common n counts = take (nat n) (sorted_desc (\<lambda>item. int (snd item)) counts)"

definition title_words :: "post \<Rightarrow> string list" where
  \<comment> \<open>the body of the loop of \<open>extract_common_themes\<close>: the words of one title\<close>
  "title_words p =
     filter (\<lambda>w. w \<notin> set stopwords) (findall_words (lower (get_or (title p) [])) 0)"

definition extract_common_themes :: "post list \<Rightarrow> int \<Rightarrow> string list" where
  "extract_common_themes posts top_n =
     map fst (most_common top_n
       (fold (\<lambda>p word_counts. counter_update word_counts (title_words p)) posts []))"

section \<open>NicheResearcher\<close>

text \<open>
  \<open>list(set(xs))\<close> lists the distinct elements of \<open>xs\<close> in the iteration order of the hash
  set, which the program does not control. The order is the parameter \<open>list_set\<close> of the
  functions below; \<open>set_listing\<close> says what every such order satisfies.
\<close>

definition set_listing :: "(string list \<Rightarrow> string list) \<Rightarrow> bool" where
  "set_listing list_set = (\<forall>xs. distinct (list_set xs) \<and> set (list_set xs) = set xs)"

definition niche_variations :: "string \<Rightarrow> string list" where
  \<comment> \<open>the list \<open>variations\<close> of \<open>generate_niche_variations\<close> before it is made a set\<close>
  "niche_variations niche =
     (let base = strip (lower niche);
          words = split_ws base
      in [base, base @ '' software'', base @ '' tool'', base @ '' app'',
          base @ '' automation'', base @ '' help'', base @ '' tips'',
          ''best '' @ base, base @ '' for beginners'', base @ '' problems'']
         @ (if endswith base ''s'' then [py_take (- 1) base] else [base @ ''s''])
         @ (if 1 < length words then [hd words, last words, join '' '' (rev words)] else []))"

definition generate_niche_variations :: "(string list \<Rightarrow> string list) \<Rightarrow> string \<Rightarrow> string list" where
  "generate_niche_variations list_set niche = list_set (niche_variations niche)"

text \<open>
  A collaborator call returns either a dictionary with the key \<open>error\<close> or a listing.
  The entries of a listing are dictionaries whose keys may be absent.
\<close>

datatype 'a response = Error string | Listing "'a list"

record subreddit_data =
  display_name :: "string option"
  name :: "string option"
  subscribers :: "int option"
  public_description :: "string option"

text \<open>The dictionary built for a discovered community, keys \<open>name\<close>, \<open>subscribers\<close>,
  \<open>description\<close>, \<open>url\<close>.\<close>

record candidate =
  sub_name :: string
  sub_subscribers :: int
  sub_description :: string
  sub_url :: string

definition entry_name :: "subreddit_data \<Rightarrow> string" where
  \<comment> \<open>\<open>sub_data.get('display_name') or sub_data.get('name', '')\<close>\<close>
  "entry_name sub_data =
     (if get_or (display_name sub_data) [] \<noteq> [] then get_or (display_name sub_data) []
      else get_or (name sub_data) [])"

definition make_candidate :: "subreddit_data \<Rightarrow> candidate" where
  "make_candidate sub_data =
     \<lparr>sub_name = entry_name sub_data,
      sub_subscribers = get_or (subscribers sub_data) 0,
      sub_description = take 200 (get_or (public_description sub_data) []),
      sub_url = ''https://reddit.com/r/'' @ entry_name sub_data\<rparr>"

definition add_subreddit :: "subreddit_data \<Rightarrow> candidate list \<Rightarrow> candidate list" where
  \<comment> \<open>one round of the inner loop; \<open>all_subreddits\<close> is the dictionary's values in insertion order\<close>
  "add_subreddit sub_data all_subreddits =
     (if entry_name sub_data \<noteq> [] \<and> entry_name sub_data \<notin> set (map sub_name all_subreddits)
      then all_subreddits @ [make_candidate sub_data] else all_subreddits)"

definition search_variation ::
  "(string \<Rightarrow> subreddit_data response) \<Rightarrow> string \<Rightarrow> candidate list \<Rightarrow> candidate list" where
  \<comment> \<open>one round of the outer loop\<close>
  "search_variation search_subreddits variation all_subreddits =
     (case search_subreddits variation of
        Error e \<Rightarrow> all_subreddits
      | Listing subreddits \<Rightarrow> fold add_subreddit subreddits all_subreddits)"

definition discover_subreddits ::
  "(string list \<Rightarrow> string list) \<Rightarrow> (string \<Rightarrow> subreddit_data response) \<Rightarrow> string \<Rightarrow> int
     \<Rightarrow> candidate list" where
  "discover_subreddits list_set search_subreddits niche max_subreddits =
     (let variations = generate_niche_variations list_set niche;
          all_subreddits = fold (search_variation search_subreddits) (take 5 variations) [];
          sorted_subs = sorted_desc sub_subscribers all_subreddits
      in py_take max_subreddits sorted_subs)"

definition process_post :: "string \<Rightarrow> post \<Rightarrow> post" where
  "process_post sub post_data =
     \<lparr>post_id = Some (get_or (post_id post_data) []),
      title = Some (get_or (title post_data) []),
      selftext = Some (get_or (selftext post_data) []),
      body = None,
      score = Some (get_or (score post_data) 0),
      num_comments = Some (get_or (num_comments post_data) 0),
      url = Some (get_or (url post_data) []),
      created_utc = Some (get_or (created_utc post_data) 0),
      subreddit = Some sub\<rparr>"

definition get_top_posts :: "(string \<Rightarrow> int \<Rightarrow> post response) \<Rightarrow> string \<Rightarrow> int \<Rightarrow> post list" where
  "get_top_posts get_top_posts_year sub limit =
     (case get_top_posts_year sub limit of
        Error e \<Rightarrow> []
      | Listing posts \<Rightarrow> map (process_post sub) posts)"

record analysis =
  a_subreddit :: string
  posts_analyzed :: nat
  a_top_posts :: "post list"
  post_categories :: "(string \<times> nat) list"
  a_insights :: insights
  themes :: "string list"

definition extend_insights :: "insights \<Rightarrow> insights \<Rightarrow> insights" where
  \<comment> \<open>\<open>for key in all_insights: all_insights[key].extend(extra[key])\<close>\<close>
  "extend_insights ins extra =
     \<lparr>pain_points = pain_points ins @ pain_points extra,
      questions = questions ins @ questions extra,
      requests = requests ins @ requests extra,
      solutions = solutions ins @ solutions extra,
      beliefs = beliefs ins @ beliefs extra\<rparr>"

definition empty_insights :: insights where
  "empty_insights = \<lparr>pain_points = [], questions = [], requests = [], solutions = [], beliefs = []\<rparr>"

definition analyze_subreddit :: "(string \<Rightarrow> int \<Rightarrow> post response) \<Rightarrow> string \<Rightarrow> int \<Rightarrow> analysis" where
  "analyze_subreddit get_top_posts_year sub post_limit =
     (let posts = get_top_posts get_top_posts_year sub post_limit;
          (post_categories, all_insights) =
            fold (\<lambda>p (cats, ins).
                    (let category = categorize_post_by_intent p
                     in (AList.update category (get_or (map_of cats category) 0 + 1) cats,
                         extend_insights ins (analyze_post p))))
                 posts
                 ([(''question'', 0), (''complaint'', 0), (''request'', 0), (''showcase'', 0),
                   (''discussion'', 0)], empty_insights)
      in \<lparr>a_subreddit = sub,
          posts_analyzed = length posts,
          a_top_posts = take 10 posts,
          post_categories = post_categories,
          a_insights = all_insights,
          themes = extract_common_themes posts 20\<rparr>)"

record ResearchReport =
  r_niche :: string
  r_timestamp :: string
  r_subreddits_found :: "candidate list"
  r_total_posts_analyzed :: nat
  r_top_posts :: "post list"
  r_pain_points :: "string list"
  r_questions :: "string list"
  r_frustrations :: "string list"
  r_requests :: "string list"
  r_solutions_mentioned :: "string list"
  r_beliefs :: "string list"
  r_common_themes :: "string list"
  r_saas_opportunities :: "opportunity list"

record research_state =
  all_insights :: InsightCategory
  all_posts :: "post list"
  all_themes :: "string list"
  total_posts :: nat

definition research_step ::
  "(string \<Rightarrow> int \<Rightarrow> post response) \<Rightarrow> int \<Rightarrow> candidate \<Rightarrow> research_state \<Rightarrow> research_state" where
  \<comment> \<open>one round of the loop over the discovered communities\<close>
  "research_step get_top_posts_year posts_per_subreddit sub st =
     (let an = analyze_subreddit get_top_posts_year (sub_name sub) posts_per_subreddit;
          ins = a_insights an;
          ai = all_insights st
      in \<lparr>all_insights =
            ai\<lparr>ic_pain_points := ic_pain_points ai @ pain_points ins,
               ic_questions := ic_questions ai @ questions ins,
               ic_requests := ic_requests ai @ requests ins,
               ic_solutions_mentioned := ic_solutions_mentioned ai @ solutions ins,
               ic_beliefs := ic_beliefs ai @ beliefs ins\<rparr>,
          all_posts = all_posts st @ a_top_posts an,
          all_themes = all_themes st @ themes an,
          total_posts = total_posts st + posts_analyzed an\<rparr>)"

definition finalize_insights :: "(string list \<Rightarrow> string list) \<Rightarrow> InsightCategory \<Rightarrow> InsightCategory" where
  \<comment> \<open>step 3 of \<open>research_niche\<close>: \<open>list(set(bucket))[:cap]\<close> for five buckets\<close>
  "finalize_insights list_set ai =
     ai\<lparr>ic_pain_points := take 50 (list_set (ic_pain_points ai)),
        ic_questions := take 50 (list_set (ic_questions ai)),
        ic_requests := take 50 (list_set (ic_requests ai)),
        ic_solutions_mentioned := take 30 (list_set (ic_solutions_mentioned ai)),
        ic_beliefs := take 30 (list_set (ic_beliefs ai))\<rparr>"

definition dedupe_insights :: "(string list \<Rightarrow> string list) \<Rightarrow> insights \<Rightarrow> insights" where
  \<comment> \<open>\<open>run_research\<close> of the watermark script: \<open>list(set(all_insights[key]))[:30]\<close> for every key\<close>
  "dedupe_insights list_set ins =
     \<lparr>pain_points = take 30 (list_set (pain_points ins)),
      questions = take 30 (list_set (questions ins)),
      requests = take 30 (list_set (requests ins)),
      solutions = take 30 (list_set (solutions ins)),
      beliefs = take 30 (list_set (beliefs ins))\<rparr>"

definition dedupe_insights_crm :: "(string list \<Rightarrow> string list) \<Rightarrow> insights \<Rightarrow> insights" where
  \<comment> \<open>\<open>run_research\<close> of the CRM network script: \<open>list(set(all_insights[key]))[:50]\<close> for every key\<close>
  "dedupe_insights_crm list_set ins =
     \<lparr>pain_points = take 50 (list_set (pain_points ins)),
      questions = take 50 (list_set (questions ins)),
      requests = take 50 (list_set (requests ins)),
      solutions = take 50 (list_set (solutions ins)),
      beliefs = take 50 (list_set (beliefs ins))\<rparr>"

definition post_score :: "post \<Rightarrow> int" where
  \<comment> \<open>the sort key \<open>lambda x: x.get('score', 0)\<close>\<close>
  "post_score x = get_or (score x) 0"

definition collected_posts ::
  "(string \<Rightarrow> int \<Rightarrow> post response) \<Rightarrow> int \<Rightarrow> candidate list \<Rightarrow> research_state" where
  \<comment> \<open>step 2 of \<open>research_niche\<close>: the state after the loop\<close>
  "collected_posts get_top_posts_year posts_per_subreddit subs =
     fold (research_step get_top_posts_year posts_per_subreddit) subs
       \<lparr>all_insights = \<lparr>ic_pain_points = [], ic_questions = [], ic_frustrations = [],
                         ic_requests = [], ic_solutions_mentioned = [], ic_beliefs = [],
                         ic_perspectives = []\<rparr>,
        all_posts = [], all_themes = [], total_posts = 0\<rparr>"

definition research_niche ::
  "(string list \<Rightarrow> string list) \<Rightarrow> (string \<Rightarrow> subreddit_data response) \<Rightarrow>
   (string \<Rightarrow> int \<Rightarrow> post response) \<Rightarrow> string \<Rightarrow> string \<Rightarrow> int \<Rightarrow> int \<Rightarrow> ResearchReport option" where
  \<comment> \<open>\<open>now\<close> is the value of \<open>datetime.now().isoformat()\<close>; the result \<open>None\<close> is Python's \<open>None\<close>\<close>
  "research_niche list_set search_subreddits get_top_posts_year now niche max_subreddits
       posts_per_subreddit =
     (let subreddits = discover_subreddits list_set search_subreddits niche max_subreddits
      in if subreddits = [] then None
         else
           let st = collected_posts get_top_posts_year posts_per_subreddit
                      (py_take max_subreddits subreddits);
               ai = finalize_insights list_set (all_insights st);
               top_themes = map fst (most_common 20 (counter_update [] (all_themes st)));
               opportunities = generate_saas_opportunities ai;
               sorted_posts = sorted_desc post_score (all_posts st)
           in Some \<lparr>r_niche = niche,
                    r_timestamp = now,
                    r_subreddits_found = subreddits,
                    r_total_posts_analyzed = total_posts st,
                    r_top_posts = take 20 sorted_posts,
                    r_pain_points = ic_pain_points ai,
                    r_questions = ic_questions ai,
                    r_frustrations = ic_frustrations ai,
                    r_requests = ic_requests ai,
                    r_solutions_mentioned = ic_solutions_mentioned ai,
                    r_beliefs = ic_beliefs ai,
                    r_common_themes = top_themes,
                    r_saas_opportunities = opportunities\<rparr>)"

definition dedup_capped :: "nat \<Rightarrow> string list \<Rightarrow> string list \<Rightarrow> bool" where
  \<comment> \<open>\<open>ys\<close> lists distinct values of \<open>xs\<close>: all of them, or \<open>cap\<close> of them when there are more\<close>
  "dedup_capped cap xs ys =
     (distinct ys \<and> set ys \<subseteq> set xs \<and> length ys = min cap (length (remdups xs)))"

definition queried_entries ::
  "(string \<Rightarrow> subreddit_data response) \<Rightarrow> string list \<Rightarrow> subreddit_data list" where
  \<comment> \<open>the entries of the listings returned for the given queries, in query order\<close>
  "queried_entries search_subreddits vs =
     concat (map (\<lambda>v. case search_subreddits v of Error e \<Rightarrow> [] | Listing subs \<Rightarrow> subs) vs)"

definition errors_as_empty ::
  "(string \<Rightarrow> subreddit_data response) \<Rightarrow> string \<Rightarrow> subreddit_data response" where
  \<comment> \<open>the collaborator that answers an empty listing wherever the given one fails\<close>
  "errors_as_empty search_subreddits q =
     (case search_subreddits q of Error e \<Rightarrow> Listing [] | Listing subs \<Rightarrow> Listing subs)"

definition no_candidates :: "subreddit_data response \<Rightarrow> bool" where
  "no_candidates r = (case r of Error e \<Rightarrow> True | Listing subs \<Rightarrow> subs = [])"

definition fetched_posts ::
  "(string \<Rightarrow> int \<Rightarrow> post response) \<Rightarrow> int \<Rightarrow> candidate list \<Rightarrow> post list" where
  \<comment> \<open>every post fetched and analyzed for the given communities, in order\<close>
  "fetched_posts get_top_posts_year posts_per_subreddit subs =
     concat (map (\<lambda>sub. get_top_posts get_top_posts_year (sub_name sub) posts_per_subreddit) subs)"

definition kept_posts ::
  "(string \<Rightarrow> int \<Rightarrow> post response) \<Rightarrow> int \<Rightarrow> candidate list \<Rightarrow> post list" where
  \<comment> \<open>the first 10 posts fetched for each of the given communities, in order\<close>
  "kept_posts get_top_posts_year posts_per_subreddit subs =
     concat (map (\<lambda>sub. take 10
       (get_top_posts get_top_posts_year (sub_name sub) posts_per_subreddit)) subs)"

definition scored_post :: "int \<Rightarrow> post" where
  \<comment> \<open>a fetched entry that carries a score only\<close>
  "scored_post s =
     \<lparr>post_id = None, title = None, selftext = None, body = None, score = Some s,
      num_comments = None, url = None, created_utc = None, subreddit = None\<rparr>"

definition two_communities :: "string \<Rightarrow> subreddit_data response" where
  \<comment> \<open>a search collaborator that always lists the same two communities\<close>
  "two_communities q =
     Listing [\<lparr>display_name = Some ''sales'', name = None, subscribers = Some 900,
               public_description = None\<rparr>,
              \<lparr>display_name = Some ''crm'', name = None, subscribers = Some 40,
               public_description = None\<rparr>]"

definition eleven_and_two :: "string \<Rightarrow> int \<Rightarrow> post response" where
  \<comment> \<open>a content collaborator: eleven posts for \<open>sales\<close>, best first, and two for any other name\<close>
  "eleven_and_two sub limit =
     (if sub = ''sales''
      then Listing (map scored_post [100, 99, 98, 97, 96, 95, 94, 93, 92, 91, 90])
      else Listing (map scored_post [5, 4]))"

definition segments :: "string \<Rightarrow> string list" where
  \<comment> \<open>the stripped, non-empty pieces of a text between sentence breaks, in order\<close>
  "segments text = filter (\<lambda>s. s \<noteq> []) (map strip (split_sentences text))"

definition with_defaults :: "post \<Rightarrow> post" where
  \<comment> \<open>the post with the empty string stored under each absent text key\<close>
  "with_defaults p =
     p\<lparr>title := Some (get_or (title p) []), selftext := Some (get_or (selftext p) []),
       body := Some (get_or (body p) [])\<rparr>"

definition sample_post :: post where
  \<comment> \<open>a short post in the manner of the analyzer's self-test\<close>
  "sample_post =
     \<lparr>post_id = None,
      title = Some ''How do I bill? Too slow'',
      selftext = Some ''I hate the tools. Any tips?'',
      body = None, score = None, num_comments = None, url = None, created_utc = None,
      subreddit = None\<rparr>"

definition showcase_post :: post where
  \<comment> \<open>a post whose title announces own work, in capitals\<close>
  "showcase_post =
     \<lparr>post_id = None, title = Some ''I Built it'', selftext = None, body = None, score = None,
      num_comments = None, url = None, created_utc = None, subreddit = None\<rparr>"

definition bare_post :: post where
  \<comment> \<open>the empty dictionary\<close>
  "bare_post =
     \<lparr>post_id = None, title = None, selftext = None, body = None, score = None,
      num_comments = None, url = None, created_utc = None, subreddit = None\<rparr>"






text \<open>
  The dictionaries the analyzer is handed are typed \<open>Dict[str, Any]\<close>: a key that is
  present may hold a value that is no string. \<open>pyval\<close> has the values \<open>None\<close> (a JSON
  null), a string and an integer; \<open>any_post\<close> is a dictionary read at the keys \<open>title\<close>,
  \<open>selftext\<close> and \<open>body\<close>. A method call on a value without that method raises
  \<open>AttributeError\<close>.
\<close>

datatype pyval = PyNone | PyStr string | PyInt int

datatype py_error = AttributeError

record any_post =
  any_title :: "pyval option"
  any_selftext :: "pyval option"
  any_body :: "pyval option"

fun decimal :: "nat \<Rightarrow> string" where
  "decimal n =
     (if n < 10 then [char_of (48 + n)] else decimal (n div 10) @ [char_of (48 + n mod 10)])"

definition py_str :: "pyval \<Rightarrow> string" where
  \<comment> \<open>\<open>str(v)\<close>, which an f-string applies to the value it formats\<close>
  "py_str v =
     (case v of
        PyNone \<Rightarrow> ''None''
      | PyStr s \<Rightarrow> s
      | PyInt i \<Rightarrow> (if i < 0 then CHR ''-'' # decimal (nat (- i)) else decimal (nat i)))"

definition truthy :: "pyval \<Rightarrow> bool" where
  \<comment> \<open>the truth value that \<open>or\<close> tests\<close>
  "truthy v = (case v of PyNone \<Rightarrow> False | PyStr s \<Rightarrow> s \<noteq> [] | PyInt i \<Rightarrow> i \<noteq> 0)"

definition analyze_post_any :: "any_post \<Rightarrow> insights" where
  \<comment> \<open>\<open>analyze_post\<close> on any dictionary: the f-string formats whatever the keys hold\<close>
  "analyze_post_any p =
     (let title = get_or (any_title p) (PyStr []);
          body = (if truthy (get_or (any_selftext p) (PyStr []))
                  then get_or (any_selftext p) (PyStr [])
                  else get_or (any_body p) (PyStr []));
          full_text = py_str title @ ''. '' @ py_str body
      in \<lparr>pain_points = extract_sentence_with_pattern full_text ''pain'',
          questions = extract_sentence_with_pattern full_text ''question'',
          requests = extract_sentence_with_pattern full_text ''request'',
          solutions = extract_sentence_with_pattern full_text ''solution'',
          beliefs = extract_sentence_with_pattern full_text ''belief''\<rparr>)"

definition categorize_post_by_intent_any :: "any_post \<Rightarrow> py_error + string" where
  \<comment> \<open>\<open>categorize_post_by_intent\<close> on any dictionary: \<open>.lower()\<close> is defined on strings only\<close>
  "categorize_post_by_intent_any p =
     (case get_or (any_title p) (PyStr []) of
        PyStr s \<Rightarrow>
          (let t = lower s in
           if CHR ''?'' \<in> set t \<or> matches_patterns t ''question'' then Inr ''question''
           else if matches_patterns t ''pain'' then Inr ''complaint''
           else if matches_patterns t ''request'' then Inr ''request''
           else if list_ex (\<lambda>word. contains word t) showcase_phrases then Inr ''showcase''
           else Inr ''discussion'')
      | PyNone \<Rightarrow> Inl AttributeError
      | PyInt i \<Rightarrow> Inl AttributeError)"

definition as_values :: "post \<Rightarrow> any_post" where
  \<comment> \<open>a post whose present text fields are strings, as a dictionary of values\<close>
  "as_values p =
     \<lparr>any_title = map_option PyStr (title p),
      any_selftext = map_option PyStr (selftext p),
      any_body = map_option PyStr (body p)\<rparr>"

definition null_title_post :: any_post where
  \<comment> \<open>the dictionary \<open>{'title': None}\<close>\<close>
  "null_title_post = \<lparr>any_title = Some PyNone, any_selftext = None, any_body = None\<rparr>"

section \<open>Opportunity generation\<close>

lemma nth_append3:
  "i < length ys \<Longrightarrow> (xs @ ys @ zs) ! (length xs + i) = ys ! i"
  "i < length zs \<Longrightarrow> (xs @ ys @ zs) ! (length xs + length ys + i) = zs ! i"
  by (simp_all add: nth_append)

text \<open>
  C5. \<open>generate_saas_opportunities\<close> emits one record for each of the first 10 pain points,
  then one for each of the first 10 questions, then one for each of the first 10 requests.
  The record's type is \<open>pain_point\<close>, \<open>question\<close> or \<open>feature_request\<close>, its signal is the
  fragment itself, and its opportunity text is the template filled with the first 100
  characters of the fragment. The output has at most 30 records.
\<close>

theorem opportunities_one_per_fragment:
  fixes ins :: InsightCategory
  defines "np \<equiv> min 10 (length (ic_pain_points ins))"
      and "nq \<equiv> min 10 (length (ic_questions ins))"
      and "nr \<equiv> min 10 (length (ic_requests ins))"
  shows "length (generate_saas_opportunities ins) = np + nq + nr
       \<and> length (generate_saas_opportunities ins) \<le> 30
       \<and> (\<forall>i<np. generate_saas_opportunities ins ! i =
             \<lparr>o_type = ''pain_point'', o_signal = ic_pain_points ins ! i,
              o_opportunity = ''Tool to address: '' @ take 100 (ic_pain_points ins ! i) @ ''...''\<rparr>)
       \<and> (\<forall>i<nq. generate_saas_opportunities ins ! (np + i) =
             \<lparr>o_type = ''question'', o_signal = ic_questions ins ! i,
              o_opportunity = ''Solution that answers: '' @ take 100 (ic_questions ins ! i) @ ''...''\<rparr>)
       \<and> (\<forall>i<nr. generate_saas_opportunities ins ! (np + nq + i) =
             \<lparr>o_type = ''feature_request'', o_signal = ic_requests ins ! i,
              o_opportunity = ''Build feature: '' @ take 100 (ic_requests ins ! i) @ ''...''\<rparr>)"
proof -
  define P where "P = map (\<lambda>pain. \<lparr>o_type = ''pain_point'', o_signal = pain,
                  o_opportunity = ''Tool to address: '' @ take 100 pain @ ''...''\<rparr>)
         (take 10 (ic_pain_points ins))"
  define Q where "Q = map (\<lambda>question. \<lparr>o_type = ''question'', o_signal = question,
                  o_opportunity = ''Solution that answers: '' @ take 100 question @ ''...''\<rparr>)
         (take 10 (ic_questions ins))"
  define R where "R = map (\<lambda>request. \<lparr>o_type = ''feature_request'', o_signal = request,
                  o_opportunity = ''Build feature: '' @ take 100 request @ ''...''\<rparr>)
         (take 10 (ic_requests ins))"
  have g: "generate_saas_opportunities ins = P @ Q @ R"
    by (simp add: generate_saas_opportunities_def P_def Q_def R_def)
  have lp: "length P = np" and lq: "length Q = nq" and lr: "length R = nr"
    by (simp_all add: P_def Q_def R_def np_def nq_def nr_def min.commute)
  have len: "length (generate_saas_opportunities ins) = np + nq + nr"
    by (simp add: g lp lq lr)
  have le: "length (generate_saas_opportunities ins) \<le> 30"
    unfolding len by (simp add: np_def nq_def nr_def)
  have p: "generate_saas_opportunities ins ! i =
             \<lparr>o_type = ''pain_point'', o_signal = ic_pain_points ins ! i,
              o_opportunity = ''Tool to address: '' @ take 100 (ic_pain_points ins ! i) @ ''...''\<rparr>"
    if "i < np" for i
  proof -
    have "(P @ Q @ R) ! i = P ! i" using that lp by (simp add: nth_append)
    also have "\<dots> = \<lparr>o_type = ''pain_point'', o_signal = ic_pain_points ins ! i,
              o_opportunity = ''Tool to address: '' @ take 100 (ic_pain_points ins ! i) @ ''...''\<rparr>"
      using that by (simp add: P_def np_def)
    finally show ?thesis by (simp only: g)
  qed
  have q: "generate_saas_opportunities ins ! (np + i) =
             \<lparr>o_type = ''question'', o_signal = ic_questions ins ! i,
              o_opportunity = ''Solution that answers: '' @ take 100 (ic_questions ins ! i) @ ''...''\<rparr>"
    if "i < nq" for i
  proof -
    have "(P @ Q @ R) ! (np + i) = Q ! i"
      using that nth_append3(1)[of i Q P R] by (simp only: lp lq)
    also have "\<dots> = \<lparr>o_type = ''question'', o_signal = ic_questions ins ! i,
              o_opportunity = ''Solution that answers: '' @ take 100 (ic_questions ins ! i) @ ''...''\<rparr>"
      using that by (simp add: Q_def nq_def)
    finally show ?thesis by (simp only: g)
  qed
  have r: "generate_saas_opportunities ins ! (np + nq + i) =
             \<lparr>o_type = ''feature_request'', o_signal = ic_requests ins ! i,
              o_opportunity = ''Build feature: '' @ take 100 (ic_requests ins ! i) @ ''...''\<rparr>"
    if "i < nr" for i
  proof -
    have "(P @ Q @ R) ! (np + nq + i) = R ! i"
      using that nth_append3(2)[of i R P Q] by (simp only: lp lq lr)
    also have "\<dots> = \<lparr>o_type = ''feature_request'', o_signal = ic_requests ins ! i,
              o_opportunity = ''Build feature: '' @ take 100 (ic_requests ins ! i) @ ''...''\<rparr>"
      using that by (simp add: R_def nr_def)
    finally show ?thesis by (simp only: g)
  qed
  from len le p q r show ?thesis by blast
qed

theorem opportunities_one_per_fragment_witness:
  "generate_saas_opportunities
     \<lparr>ic_pain_points = [''slow export''], ic_questions = [''how to sync''], ic_frustrations = [],
      ic_requests = [''need dark mode''], ic_solutions_mentioned = [], ic_beliefs = [],
      ic_perspectives = []\<rparr> ! 1
   = \<lparr>o_type = ''question'', o_signal = ''how to sync'',
      o_opportunity = ''Solution that answers: how to sync...''\<rparr>"
  using opportunities_one_per_fragment
    [of "\<lparr>ic_pain_points = [''slow export''], ic_questions = [''how to sync''], ic_frustrations = [],
      ic_requests = [''need dark mode''], ic_solutions_mentioned = [], ic_beliefs = [],
      ic_perspectives = []\<rparr>"]
  by simp

section \<open>Search-term variations\<close>


lemma py_lower_char_idem: "py_lower_char (py_lower_char c) = py_lower_char c"
  by (auto simp: py_lower_char_def Let_def)

lemma py_isspace_lower: "py_isspace (py_lower_char c) = py_isspace c"
  by (auto simp: py_lower_char_def py_isspace_def Let_def)

lemma is_word_char_lower: "is_word_char (py_lower_char c) = is_word_char c"
  by (auto simp: py_lower_char_def is_word_char_def Let_def)

lemma lower_idem: "lower (lower s) = lower s"
  by (simp add: lower_def py_lower_char_idem)

lemma lower_append: "lower (xs @ ys) = lower xs @ lower ys"
  by (simp add: lower_def)

lemma strip_lower: "strip (lower s) = lower (strip s)"
proof -
  have sp: "py_isspace \<circ> py_lower_char = py_isspace"
    by (rule ext) (simp add: py_isspace_lower)
  show ?thesis
    by (simp add: strip_def lower_def dropWhile_map rev_map sp)
qed

lemma dropWhile_rev_prefix:
  "dropWhile P xs = xs \<Longrightarrow> dropWhile P (rev (dropWhile P (rev xs))) = rev (dropWhile P (rev xs))"
proof (cases "rev (dropWhile P (rev xs))")
  case Nil
  show ?thesis unfolding Nil by simp
next
  case (Cons y ys)
  assume d: "dropWhile P xs = xs"
  have "rev xs = takeWhile P (rev xs) @ dropWhile P (rev xs)" by simp
  then have "xs = rev (dropWhile P (rev xs)) @ rev (takeWhile P (rev xs))"
    by (metis rev_append rev_rev_ident)
  with Cons have "xs = y # ys @ rev (takeWhile P (rev xs))" by simp
  then have "hd xs = y" and "xs \<noteq> []" by (metis list.sel(1), metis list.distinct(1))
  with d have "\<not> P y" by (metis hd_dropWhile)
  with Cons show ?thesis by simp
qed

lemma strip_idem: "strip (strip s) = strip s"
proof -
  let ?t = "dropWhile py_isspace s"
  have a: "dropWhile py_isspace ?t = ?t" by (simp add: dropWhile_idem)
  have b: "dropWhile py_isspace (rev (dropWhile py_isspace (rev ?t))) = rev (dropWhile py_isspace (rev ?t))"
    by (rule dropWhile_rev_prefix [OF a])
  show ?thesis
    unfolding strip_def by (simp add: b dropWhile_idem)
qed

lemma base_normal: "strip (lower (strip (lower niche))) = strip (lower niche)"
  by (simp add: strip_lower lower_idem strip_idem)


lemma niche_variations_base:
  "strip (lower a) = strip (lower b) \<Longrightarrow> niche_variations a = niche_variations b"
  by (simp add: niche_variations_def)

lemma lower_fixed_iff: "lower s = s \<longleftrightarrow> (\<forall>c\<in>set s. py_lower_char c = c)"
  by (simp add: lower_def map_idI map_eq_conv[where g = "\<lambda>c. c", simplified])

lemma lower_base: "lower (strip (lower niche)) = strip (lower niche)"
  by (simp add: strip_lower[symmetric] lower_idem)

lemma split_ws_acc_chars:
  "w \<in> set (split_ws_acc cur s) \<Longrightarrow> set w \<subseteq> set cur \<union> set s"
proof (induction s arbitrary: cur)
  case Nil
  then show ?case by (auto split: if_splits)
next
  case (Cons c cs)
  show ?case
  proof (cases "py_isspace c")
    case True
    with Cons.prems have "w = rev cur \<or> w \<in> set (split_ws_acc [] cs)"
      by (auto split: if_splits)
    then show ?thesis
    proof
      assume "w = rev cur" then show ?thesis by auto
    next
      assume "w \<in> set (split_ws_acc [] cs)"
      from Cons.IH[OF this] show ?thesis by auto
    qed
  next
    case False
    with Cons.prems have "w \<in> set (split_ws_acc (c # cur) cs)" by simp
    from Cons.IH[OF this] show ?thesis by auto
  qed
qed

lemma split_ws_chars: "w \<in> set (split_ws s) \<Longrightarrow> set w \<subseteq> set s"
  using split_ws_acc_chars[of w "[]" s] by (simp add: split_ws_def)

lemma join_chars: "set (join sep xs) \<subseteq> set sep \<union> \<Union>(set ` set xs)"
  by (induction sep xs rule: join.induct) auto

lemma py_take_chars: "set (py_take m xs) \<subseteq> set xs"
  by (auto simp: py_take_def dest: in_set_takeD)

lemma lower_literals:
  "lower '' software'' = '' software''" "lower '' tool'' = '' tool''" "lower '' app'' = '' app''"
  "lower '' automation'' = '' automation''" "lower '' help'' = '' help''"
  "lower '' tips'' = '' tips''" "lower ''best '' = ''best ''"
  "lower '' for beginners'' = '' for beginners''" "lower '' problems'' = '' problems''"
  "lower ''s'' = ''s''" "lower '' '' = '' ''"
  by code_simp+

lemma niche_variations_lowercase:
  assumes "v \<in> set (niche_variations niche)"
  shows "lower v = v"
proof -
  define base where "base = strip (lower niche)"
  have b: "lower base = base" by (simp add: base_def lower_base)
  then have bc: "\<forall>c\<in>set base. py_lower_char c = c" by (simp add: lower_fixed_iff)
  have w: "lower x = x" if "x \<in> set (split_ws base)" for x
    using split_ws_chars[OF that] bc by (auto simp: lower_fixed_iff)
  have hdw: "lower (hd (split_ws base)) = hd (split_ws base)"
    if "1 < length (split_ws base)"
    using that w[of "hd (split_ws base)"] by (cases "split_ws base") auto
  have lastw: "lower (last (split_ws base)) = last (split_ws base)"
    if "1 < length (split_ws base)"
    using that w[of "last (split_ws base)"] by (cases "split_ws base") auto
  have j: "lower (join '' '' (rev (split_ws base))) = join '' '' (rev (split_ws base))"
  proof -
    have "\<forall>c\<in>set (join '' '' (rev (split_ws base))). py_lower_char c = c"
    proof
      fix c assume "c \<in> set (join '' '' (rev (split_ws base)))"
      with join_chars[of "'' ''" "rev (split_ws base)"]
      have "c \<in> set '' '' \<or> (\<exists>x\<in>set (split_ws base). c \<in> set x)" by auto
      then show "py_lower_char c = c"
      proof
        assume "c \<in> set '' ''"
        with lower_literals(11) show ?thesis by (simp add: lower_def)
      next
        assume "\<exists>x\<in>set (split_ws base). c \<in> set x"
        then obtain x where "x \<in> set (split_ws base)" "c \<in> set x" by blast
        with w[of x] show ?thesis by (simp add: lower_fixed_iff)
      qed
    qed
    then show ?thesis by (simp add: lower_fixed_iff)
  qed
  have t: "lower (py_take (- 1) base) = py_take (- 1) base"
    using py_take_chars[of "- 1" base] bc by (auto simp: lower_fixed_iff)
  have pre: "lower (''best '' @ base) = ''best '' @ base"
    by (simp only: lower_append lower_literals b)
  have suf: "lower (base @ x) = base @ x" if "lower x = x" for x
    using that by (simp only: lower_append b)
  note sufs = lower_literals(1-6,8-10)[THEN suf]
  have "list_all (\<lambda>v. lower v = v) (niche_variations niche)"
    unfolding niche_variations_def Let_def base_def[symmetric]
    by (simp only: list.pred_inject list_all_append b pre sufs t j
          simp_thms if_True if_False split: if_split) (use hdw lastw in blast)
  with assms show ?thesis by (simp only: list_all_iff)
qed

text \<open>
  C10. \<open>generate_niche_variations\<close> builds every variation from the lowercased, stripped
  niche. The result for a niche is the result for its lowercased, stripped form; two niches
  with the same lowercased, stripped form give the same variation set; and every variation
  is lowercase.
\<close>

theorem variations_normalised:
  assumes "set_listing list_set"
  shows "generate_niche_variations list_set niche =
           generate_niche_variations list_set (strip (lower niche))
       \<and> (\<forall>other. strip (lower other) = strip (lower niche) \<longrightarrow>
             set (generate_niche_variations list_set other) =
             set (generate_niche_variations list_set niche))
       \<and> (\<forall>v\<in>set (generate_niche_variations list_set niche). lower v = v)"
proof -
  have n: "strip (lower (strip (lower niche))) = strip (lower niche)"
    by (simp add: strip_lower lower_idem strip_idem)
  have 1: "generate_niche_variations list_set niche =
           generate_niche_variations list_set (strip (lower niche))"
    unfolding generate_niche_variations_def
    using niche_variations_base[OF n] by simp
  have 2: "set (generate_niche_variations list_set other) =
           set (generate_niche_variations list_set niche)"
    if "strip (lower other) = strip (lower niche)" for other
    unfolding generate_niche_variations_def
    using niche_variations_base[OF that] by simp
  have 3: "lower v = v" if "v \<in> set (generate_niche_variations list_set niche)" for v
  proof -
    from that assms have "v \<in> set (niche_variations niche)"
      by (simp add: generate_niche_variations_def set_listing_def)
    then show ?thesis by (rule niche_variations_lowercase)
  qed
  from 1 2 3 show ?thesis by blast
qed

theorem variations_normalised_witness:
  "set_listing remdups
   \<and> generate_niche_variations remdups '' Email Marketing '' =
     generate_niche_variations remdups ''email marketing''
   \<and> lower (hd (generate_niche_variations remdups '' Email Marketing '')) =
     hd (generate_niche_variations remdups '' Email Marketing '')"
proof -
  have h: "set_listing remdups" by (simp add: set_listing_def)
  have e: "strip (lower '' Email Marketing '') = ''email marketing''" by code_simp
  have m: "hd (generate_niche_variations remdups '' Email Marketing '')
             \<in> set (generate_niche_variations remdups '' Email Marketing '')"
    by code_simp
  from variations_normalised [OF h, of "'' Email Marketing ''"]
  have c1: "generate_niche_variations remdups '' Email Marketing '' =
            generate_niche_variations remdups (strip (lower '' Email Marketing ''))"
   and c3: "\<forall>v\<in>set (generate_niche_variations remdups '' Email Marketing ''). lower v = v"
    by blast+
  from c3 m have l: "lower (hd (generate_niche_variations remdups '' Email Marketing '')) =
     hd (generate_niche_variations remdups '' Email Marketing '')" by blast
  from h c1[unfolded e] l show ?thesis by blast
qed

section \<open>Finalizing the buckets\<close>

lemma take_listing_capped:
  assumes "set_listing ls"
  shows "dedup_capped cap xs (take cap (ls xs))"
proof -
  from assms have d: "distinct (ls xs)" and s: "set (ls xs) = set xs"
    by (simp_all add: set_listing_def)
  have "length (ls xs) = card (set xs)"
    using distinct_card[OF d] s by simp
  then have "length (ls xs) = length (remdups xs)"
    by (simp add: length_remdups_card_conv)
  with d s show ?thesis
    by (auto simp: dedup_capped_def min.commute dest: in_set_takeD)
qed

lemma take_listing_again:
  assumes "set_listing ls" and "dedup_capped cap xs ys"
  shows "set (take cap (ls ys)) = set ys \<and> length (take cap (ls ys)) \<le> cap
       \<and> distinct (take cap (ls ys))"
proof -
  from assms(1) have d: "distinct (ls ys)" and s: "set (ls ys) = set ys"
    by (simp_all add: set_listing_def)
  from assms(2) have dy: "distinct ys" and ly: "length ys \<le> cap"
    by (simp_all add: dedup_capped_def)
  have "length (ls ys) = card (set ys)" using distinct_card[OF d] s by simp
  also have "\<dots> = length ys" using distinct_card[OF dy] by simp
  finally have "take cap (ls ys) = ls ys" using ly by simp
  with d s ly show ?thesis by simp
qed

text \<open>
  C4. The finalize step of the full research flow replaces each bucket by a listing of its
  distinct values cut to the cap: 50 for pain points, questions and requests, 30 for
  solutions and beliefs; the single-keyword script uses 30 for every bucket. Finalizing a
  finalized bucket again gives the same set of elements, at most cap many, without
  duplicates.
\<close>

theorem finalize_dedups_and_caps:
  fixes ai :: InsightCategory and ins :: insights
  assumes "set_listing ls"
  defines "f \<equiv> finalize_insights ls ai" and "w \<equiv> dedupe_insights ls ins"
  defines "ff \<equiv> finalize_insights ls f" and "ww \<equiv> dedupe_insights ls w"
  shows "dedup_capped 50 (ic_pain_points ai) (ic_pain_points f)
       \<and> dedup_capped 50 (ic_questions ai) (ic_questions f)
       \<and> dedup_capped 50 (ic_requests ai) (ic_requests f)
       \<and> dedup_capped 30 (ic_solutions_mentioned ai) (ic_solutions_mentioned f)
       \<and> dedup_capped 30 (ic_beliefs ai) (ic_beliefs f)
       \<and> dedup_capped 30 (pain_points ins) (pain_points w)
       \<and> dedup_capped 30 (questions ins) (questions w)
       \<and> dedup_capped 30 (requests ins) (requests w)
       \<and> dedup_capped 30 (solutions ins) (solutions w)
       \<and> dedup_capped 30 (beliefs ins) (beliefs w)
       \<and> (set (ic_pain_points ff) = set (ic_pain_points f)
            \<and> length (ic_pain_points ff) \<le> 50 \<and> distinct (ic_pain_points ff))
       \<and> (set (ic_questions ff) = set (ic_questions f)
            \<and> length (ic_questions ff) \<le> 50 \<and> distinct (ic_questions ff))
       \<and> (set (ic_requests ff) = set (ic_requests f)
            \<and> length (ic_requests ff) \<le> 50 \<and> distinct (ic_requests ff))
       \<and> (set (ic_solutions_mentioned ff) = set (ic_solutions_mentioned f)
            \<and> length (ic_solutions_mentioned ff) \<le> 30 \<and> distinct (ic_solutions_mentioned ff))
       \<and> (set (ic_beliefs ff) = set (ic_beliefs f)
            \<and> length (ic_beliefs ff) \<le> 30 \<and> distinct (ic_beliefs ff))
       \<and> (set (pain_points ww) = set (pain_points w)
            \<and> length (pain_points ww) \<le> 30 \<and> distinct (pain_points ww))
       \<and> (set (questions ww) = set (questions w)
            \<and> length (questions ww) \<le> 30 \<and> distinct (questions ww))
       \<and> (set (requests ww) = set (requests w)
            \<and> length (requests ww) \<le> 30 \<and> distinct (requests ww))
       \<and> (set (solutions ww) = set (solutions w)
            \<and> length (solutions ww) \<le> 30 \<and> distinct (solutions ww))
       \<and> (set (beliefs ww) = set (beliefs w)
            \<and> length (beliefs ww) \<le> 30 \<and> distinct (beliefs ww))"
proof -
  note c = take_listing_capped[OF assms(1)]
  note a = take_listing_again[OF assms(1) c]
  have sel_f:
    "ic_pain_points f = take 50 (ls (ic_pain_points ai))"
    "ic_questions f = take 50 (ls (ic_questions ai))"
    "ic_requests f = take 50 (ls (ic_requests ai))"
    "ic_solutions_mentioned f = take 30 (ls (ic_solutions_mentioned ai))"
    "ic_beliefs f = take 30 (ls (ic_beliefs ai))"
    by (simp_all add: f_def finalize_insights_def)
  have sel_ff:
    "ic_pain_points ff = take 50 (ls (ic_pain_points f))"
    "ic_questions ff = take 50 (ls (ic_questions f))"
    "ic_requests ff = take 50 (ls (ic_requests f))"
    "ic_solutions_mentioned ff = take 30 (ls (ic_solutions_mentioned f))"
    "ic_beliefs ff = take 30 (ls (ic_beliefs f))"
    by (simp_all add: ff_def finalize_insights_def)
  have sel_w:
    "pain_points w = take 30 (ls (pain_points ins))"
    "questions w = take 30 (ls (questions ins))"
    "requests w = take 30 (ls (requests ins))"
    "solutions w = take 30 (ls (solutions ins))"
    "beliefs w = take 30 (ls (beliefs ins))"
    by (simp_all add: w_def dedupe_insights_def)
  have sel_ww:
    "pain_points ww = take 30 (ls (pain_points w))"
    "questions ww = take 30 (ls (questions w))"
    "requests ww = take 30 (ls (requests w))"
    "solutions ww = take 30 (ls (solutions w))"
    "beliefs ww = take 30 (ls (beliefs w))"
    by (simp_all add: ww_def dedupe_insights_def)
  show ?thesis
    unfolding sel_ff sel_ww unfolding sel_f sel_w
    by (intro conjI c a[THEN conjunct1] a[THEN conjunct2, THEN conjunct1]
          a[THEN conjunct2, THEN conjunct2])
qed

theorem finalize_dedups_and_caps_witness:
  "set_listing remdups
   \<and> ic_pain_points (finalize_insights remdups
        \<lparr>ic_pain_points = [''slow'', ''costly'', ''slow''], ic_questions = [], ic_frustrations = [],
         ic_requests = [], ic_solutions_mentioned = [], ic_beliefs = [], ic_perspectives = []\<rparr>)
     = [''costly'', ''slow'']
   \<and> dedup_capped 50 [''slow'', ''costly'', ''slow''] [''costly'', ''slow'']"
proof -
  have h: "set_listing remdups" by (simp add: set_listing_def)
  have e: "ic_pain_points (finalize_insights remdups
        \<lparr>ic_pain_points = [''slow'', ''costly'', ''slow''], ic_questions = [], ic_frustrations = [],
         ic_requests = [], ic_solutions_mentioned = [], ic_beliefs = [], ic_perspectives = []\<rparr>)
     = [''costly'', ''slow'']"
    by (simp add: finalize_insights_def)
  from finalize_dedups_and_caps [OF h, of
        "\<lparr>ic_pain_points = [''slow'', ''costly'', ''slow''], ic_questions = [], ic_frustrations = [],
         ic_requests = [], ic_solutions_mentioned = [], ic_beliefs = [], ic_perspectives = []\<rparr>"]
  have "dedup_capped 50 [''slow'', ''costly'', ''slow''] [''costly'', ''slow'']"
    unfolding e by simp
  with h e show ?thesis by blast
qed

text \<open>The CRM network script runs the same step with the cap 50 for every bucket.\<close>

lemma dedupe_insights_crm_capped:
  assumes "set_listing ls"
  shows "dedup_capped 50 (pain_points ins) (pain_points (dedupe_insights_crm ls ins))"
    and "dedup_capped 50 (questions ins) (questions (dedupe_insights_crm ls ins))"
    and "dedup_capped 50 (requests ins) (requests (dedupe_insights_crm ls ins))"
    and "dedup_capped 50 (solutions ins) (solutions (dedupe_insights_crm ls ins))"
    and "dedup_capped 50 (beliefs ins) (beliefs (dedupe_insights_crm ls ins))"
  by (simp_all add: dedupe_insights_crm_def take_listing_capped[OF assms])

section \<open>Discovery\<close>

lemma fold_search_variation:
  "fold (search_variation srch) vs acc = fold add_subreddit (queried_entries srch vs) acc"
  by (induction vs arbitrary: acc)
     (simp_all add: queried_entries_def search_variation_def split: response.split)

lemma add_subreddit_names_mono:
  "set (map sub_name acc) \<subseteq> set (map sub_name (add_subreddit e acc))"
  by (auto simp: add_subreddit_def)

lemma add_subreddit_distinct:
  "distinct (map sub_name acc) \<Longrightarrow> distinct (map sub_name (add_subreddit e acc))"
  by (auto simp: add_subreddit_def make_candidate_def)

lemma fold_add_subreddit_distinct:
  "distinct (map sub_name acc) \<Longrightarrow> distinct (map sub_name (fold add_subreddit es acc))"
  by (induction es arbitrary: acc) (simp_all add: add_subreddit_distinct)

lemma fold_add_subreddit_first:
  assumes "c \<in> set (fold add_subreddit es acc)"
  shows "c \<in> set acc \<or>
         (sub_name c \<noteq> [] \<and> sub_name c \<notin> set (map sub_name acc) \<and>
          (\<exists>e. find (\<lambda>e. entry_name e = sub_name c) es = Some e \<and> c = make_candidate e))"
  using assms
proof (induction es arbitrary: acc)
  case Nil
  then show ?case by simp
next
  case (Cons e es)
  let ?acc = "add_subreddit e acc"
  from Cons.prems have "c \<in> set (fold add_subreddit es ?acc)" by simp
  from Cons.IH[OF this] consider
      (old) "c \<in> set ?acc"
    | (new) e' where "sub_name c \<noteq> []" "sub_name c \<notin> set (map sub_name ?acc)"
        "find (\<lambda>e. entry_name e = sub_name c) es = Some e'" "c = make_candidate e'"
    by blast
  then show ?case
  proof cases
    case old
    show ?thesis
    proof (cases "c \<in> set acc")
      case True
      then show ?thesis by simp
    next
      case False
      with old have c: "c = make_candidate e" and n: "entry_name e \<noteq> []"
        and f: "entry_name e \<notin> set (map sub_name acc)"
        by (auto simp: add_subreddit_def split: if_splits)
      have "sub_name c = entry_name e" by (simp add: c make_candidate_def)
      with c n f show ?thesis by simp
    qed
  next
    case new
    have ne: "entry_name e \<noteq> sub_name c"
    proof
      assume eq: "entry_name e = sub_name c"
      have "sub_name c \<in> set (map sub_name ?acc)"
      proof (cases "sub_name c \<in> set (map sub_name acc)")
        case True
        with add_subreddit_names_mono[of acc e] show ?thesis by blast
      next
        case False
        with eq new(1) have "?acc = acc @ [make_candidate e]"
          by (simp add: add_subreddit_def)
        with eq show ?thesis by (simp add: make_candidate_def)
      qed
      with new(2) show False by simp
    qed
    from new(2) add_subreddit_names_mono[of acc e]
    have "sub_name c \<notin> set (map sub_name acc)" by blast
    with new ne show ?thesis by simp
  qed
qed

lemma sorted_desc_props:
  "set (sorted_desc f xs) = set xs"
  "distinct (map g (sorted_desc f xs)) = distinct (map g xs)"
  "sorted_wrt (\<ge>) (map f (sorted_desc f xs))"
proof -
  show "set (sorted_desc f xs) = set xs" by (simp add: sorted_desc_def)
  show "distinct (map g (sorted_desc f xs)) = distinct (map g xs)"
    by (simp add: sorted_desc_def distinct_map)
  have "sorted (map (\<lambda>x. - f x) (sorted_desc f xs))"
    by (simp add: sorted_desc_def)
  then show "sorted_wrt (\<ge>) (map f (sorted_desc f xs))"
    by (simp add: sorted_wrt_map)
qed

lemma py_take_nonneg: "0 \<le> m \<Longrightarrow> py_take m xs = take (nat m) xs"
  by (simp add: py_take_def)

lemma discover_subreddits_unfold:
  "discover_subreddits ls srch niche m =
     py_take m (sorted_desc sub_subscribers
       (fold add_subreddit (queried_entries srch (take 5 (generate_niche_variations ls niche))) []))"
  by (simp add: discover_subreddits_def Let_def fold_search_variation)


text \<open>
  C7. For a requested maximum that is not negative, the sequence returned by
  \<open>discover_subreddits\<close> has no two candidates with the same name; each candidate is the one
  built from the first entry carrying its name among the listings returned for the queried
  variations, in query order; the sequence is sorted by subscriber count in descending
  order; and it is no longer than the requested maximum.
\<close>

theorem discovery_unique_first_sorted_capped:
  fixes search_subreddits :: "string \<Rightarrow> subreddit_data response"
    and list_set :: "string list \<Rightarrow> string list" and niche :: string
    and max_subreddits :: int
  assumes "0 \<le> max_subreddits"
  defines "found \<equiv> discover_subreddits list_set search_subreddits niche max_subreddits"
  defines "entries \<equiv>
    queried_entries search_subreddits (take 5 (generate_niche_variations list_set niche))"
  shows "distinct (map sub_name found)
       \<and> (\<forall>c\<in>set found. \<exists>e. find (\<lambda>e. entry_name e = sub_name c) entries = Some e
                                \<and> c = make_candidate e)
       \<and> sorted_wrt (\<ge>) (map sub_subscribers found)
       \<and> int (length found) \<le> max_subreddits"
proof -
  define every where "every = fold add_subreddit entries []"
  have f: "found = take (nat max_subreddits) (sorted_desc sub_subscribers every)"
    unfolding found_def every_def entries_def discover_subreddits_unfold
    by (rule py_take_nonneg[OF assms(1)])
  have "distinct (map sub_name every)"
    unfolding every_def by (rule fold_add_subreddit_distinct) simp
  then have "distinct (map sub_name (sorted_desc sub_subscribers every))"
    by (simp only: sorted_desc_props(2))
  then have 1: "distinct (map sub_name found)"
    unfolding f by (simp only: take_map[symmetric] distinct_take)
  have 2: "\<exists>e. find (\<lambda>e. entry_name e = sub_name c) entries = Some e \<and> c = make_candidate e"
    if "c \<in> set found" for c
  proof -
    from that have "c \<in> set (sorted_desc sub_subscribers every)"
      unfolding f by (rule in_set_takeD)
    then have "c \<in> set (fold add_subreddit entries [])"
      by (simp only: sorted_desc_props(1) every_def)
    from fold_add_subreddit_first[OF this] show ?thesis by simp
  qed
  have "sorted_wrt (\<ge>) (map sub_subscribers (sorted_desc sub_subscribers every))"
    by (rule sorted_desc_props(3))
  then have 3: "sorted_wrt (\<ge>) (map sub_subscribers found)"
    unfolding f by (simp only: take_map[symmetric] sorted_wrt_take)
  have 4: "int (length found) \<le> max_subreddits"
    unfolding f using assms(1) by simp
  from 1 2 3 4 show ?thesis by blast
qed

theorem discovery_unique_first_sorted_capped_witness:
  "(0::int) \<le> 2
   \<and> map sub_name (discover_subreddits remdups
        (\<lambda>q. if q = ''crm'' then Error ''quota''
              else Listing [\<lparr>display_name = Some ''sales'', name = None, subscribers = Some 5,
                              public_description = None\<rparr>,
                            \<lparr>display_name = None, name = Some ''CRM'', subscribers = Some 9,
                              public_description = Some ''tools''\<rparr>,
                            \<lparr>display_name = Some ''sales'', name = None, subscribers = Some 70,
                              public_description = None\<rparr>])
        ''crm'' 2) = [''CRM'', ''sales'']
   \<and> distinct (map sub_name (discover_subreddits remdups
        (\<lambda>q. if q = ''crm'' then Error ''quota''
              else Listing [\<lparr>display_name = Some ''sales'', name = None, subscribers = Some 5,
                              public_description = None\<rparr>,
                            \<lparr>display_name = None, name = Some ''CRM'', subscribers = Some 9,
                              public_description = Some ''tools''\<rparr>,
                            \<lparr>display_name = Some ''sales'', name = None, subscribers = Some 70,
                              public_description = None\<rparr>])
        ''crm'' 2))"
proof -
  have h: "(0::int) \<le> 2" by simp
  have e: "map sub_name (discover_subreddits remdups
        (\<lambda>q. if q = ''crm'' then Error ''quota''
              else Listing [\<lparr>display_name = Some ''sales'', name = None, subscribers = Some 5,
                              public_description = None\<rparr>,
                            \<lparr>display_name = None, name = Some ''CRM'', subscribers = Some 9,
                              public_description = Some ''tools''\<rparr>,
                            \<lparr>display_name = Some ''sales'', name = None, subscribers = Some 70,
                              public_description = None\<rparr>])
        ''crm'' 2) = [''CRM'', ''sales'']"
    by code_simp
  from discovery_unique_first_sorted_capped [OF h] h e show ?thesis by blast
qed

lemma queried_entries_errors_as_empty:
  "queried_entries (errors_as_empty srch) vs = queried_entries srch vs"
  by (induction vs) (simp_all add: queried_entries_def errors_as_empty_def split: response.split)

lemma queried_entries_none:
  "\<forall>v\<in>set vs. no_candidates (srch v) \<Longrightarrow> queried_entries srch vs = []"
  by (induction vs) (auto simp: queried_entries_def no_candidates_def split: response.splits)

lemma research_niche_none_iff:
  "research_niche ls srch api now niche m ppl = None
     \<longleftrightarrow> discover_subreddits ls srch niche m = []"
  by (simp add: research_niche_def Let_def)

text \<open>
  C8. A variation whose query returns an error leaves the candidates found so far as they
  are, and discovery goes on: its result is the one obtained when every failed query had
  returned an empty listing. When every queried variation fails or returns no candidates,
  discovery returns the empty sequence. The research run returns no report exactly when
  discovery returned the empty sequence; otherwise it returns a report.
\<close>

theorem failed_queries_skipped_no_report:
  fixes search_subreddits :: "string \<Rightarrow> subreddit_data response"
  shows "(search_subreddits v = Error e \<longrightarrow>
            search_variation search_subreddits v found = found)
       \<and> discover_subreddits list_set search_subreddits niche m =
           discover_subreddits list_set (errors_as_empty search_subreddits) niche m
       \<and> ((\<forall>v\<in>set (take 5 (generate_niche_variations list_set niche)).
              no_candidates (search_subreddits v)) \<longrightarrow>
            discover_subreddits list_set search_subreddits niche m = [])
       \<and> (discover_subreddits list_set search_subreddits niche m = [] \<longrightarrow>
            research_niche list_set search_subreddits get_top_posts_year now niche m
              posts_per_subreddit = None)
       \<and> (discover_subreddits list_set search_subreddits niche m \<noteq> [] \<longrightarrow>
            (\<exists>report. research_niche list_set search_subreddits get_top_posts_year now niche m
              posts_per_subreddit = Some report))"
proof -
  have 1: "search_subreddits v = Error e \<longrightarrow>
            search_variation search_subreddits v found = found"
    by (simp add: search_variation_def)
  have 2: "discover_subreddits list_set search_subreddits niche m =
           discover_subreddits list_set (errors_as_empty search_subreddits) niche m"
    by (simp only: discover_subreddits_unfold queried_entries_errors_as_empty)
  have 3: "discover_subreddits list_set search_subreddits niche m = []"
    if "\<forall>v\<in>set (take 5 (generate_niche_variations list_set niche)).
              no_candidates (search_subreddits v)"
    unfolding discover_subreddits_unfold queried_entries_none[OF that]
    by (simp add: sorted_desc_def py_take_def)
  note 4 = research_niche_none_iff[of list_set search_subreddits get_top_posts_year now niche m
              posts_per_subreddit]
  from 1 2 3 4 show ?thesis by (metis not_Some_eq)
qed

theorem failed_queries_skipped_no_report_witness:
  "discover_subreddits remdups (\<lambda>v. if v = ''crm help'' then Listing [] else Error ''quota'')
       ''crm'' 5 = []
   \<and> research_niche remdups (\<lambda>v. if v = ''crm help'' then Listing [] else Error ''quota'')
       (\<lambda>sub limit. Listing []) ''2024-01-01T00:00:00'' ''crm'' 5 50 = None"
proof -
  have h: "\<forall>v\<in>set (take 5 (generate_niche_variations remdups ''crm'')).
       no_candidates (if v = ''crm help'' then Listing [] else Error ''quota'')"
    by (simp add: no_candidates_def)
  from failed_queries_skipped_no_report
    [of "\<lambda>v. if v = ''crm help'' then Listing [] else Error ''quota''" _ _ _ remdups "''crm''" 5
        "\<lambda>sub limit. Listing []" "''2024-01-01T00:00:00''" 50]
    h show ?thesis by blast
qed

section \<open>The report's top posts\<close>

lemma analyze_subreddit_fields:
  "a_top_posts (analyze_subreddit api sub ppl) = take 10 (get_top_posts api sub ppl)"
  "posts_analyzed (analyze_subreddit api sub ppl) = length (get_top_posts api sub ppl)"
  by (simp_all add: analyze_subreddit_def Let_def split: prod.split)

lemma research_step_posts:
  "all_posts (research_step api ppl sub st) =
     all_posts st @ take 10 (get_top_posts api (sub_name sub) ppl)"
  "total_posts (research_step api ppl sub st) =
     total_posts st + length (get_top_posts api (sub_name sub) ppl)"
  by (simp_all add: research_step_def Let_def analyze_subreddit_fields)

lemma fold_research_step_posts:
  "all_posts (fold (research_step api ppl) subs st) = all_posts st @ kept_posts api ppl subs"
  by (induction subs arbitrary: st) (simp_all add: kept_posts_def research_step_posts)

lemma fold_research_step_total:
  "total_posts (fold (research_step api ppl) subs st) =
     total_posts st + length (fetched_posts api ppl subs)"
  by (induction subs arbitrary: st) (simp_all add: fetched_posts_def research_step_posts)

lemma collected_posts_fields:
  "all_posts (collected_posts api ppl subs) = kept_posts api ppl subs"
  "total_posts (collected_posts api ppl subs) = length (fetched_posts api ppl subs)"
  by (simp_all add: collected_posts_def fold_research_step_posts fold_research_step_total)

lemma report_top_posts:
  assumes "research_niche ls srch api now niche m ppl = Some r"
  shows "r_top_posts r =
           take 20 (sorted_desc post_score
             (kept_posts api ppl (py_take m (discover_subreddits ls srch niche m))))"
    and "r_total_posts_analyzed r =
           length (fetched_posts api ppl (py_take m (discover_subreddits ls srch niche m)))"
  using assms
  by (auto simp: research_niche_def Let_def collected_posts_fields split: if_splits)


lemma two_communities_found:
  "discover_subreddits remdups two_communities ''crm'' 5 =
     [\<lparr>sub_name = ''sales'', sub_subscribers = 900, sub_description = [],
       sub_url = ''https://reddit.com/r/sales''\<rparr>,
      \<lparr>sub_name = ''crm'', sub_subscribers = 40, sub_description = [],
       sub_url = ''https://reddit.com/r/crm''\<rparr>]"
  by code_simp

lemma two_communities_kept:
  "map post_score (kept_posts eleven_and_two 50
      (py_take 5 (discover_subreddits remdups two_communities ''crm'' 5))) =
     [100, 99, 98, 97, 96, 95, 94, 93, 92, 91, 5, 4]"
  unfolding two_communities_found
  by (simp add: kept_posts_def get_top_posts_def eleven_and_two_def py_take_def process_post_def
        scored_post_def post_score_def get_or_def)

lemma two_communities_fetched:
  "map post_score (fetched_posts eleven_and_two 50
      (discover_subreddits remdups two_communities ''crm'' 5)) =
     [100, 99, 98, 97, 96, 95, 94, 93, 92, 91, 90, 5, 4]"
  unfolding two_communities_found
  by (simp add: fetched_posts_def get_top_posts_def eleven_and_two_def process_post_def
        scored_post_def post_score_def get_or_def)

lemma two_communities_report:
  "research_niche remdups two_communities eleven_and_two now ''crm'' 5 50 \<noteq> None"
  by (simp only: research_niche_none_iff two_communities_found) simp

text \<open>
  C6, as stated: the report's \<open>top_posts\<close> would be the 20 best-scored of all posts fetched
  and analyzed in the run. With a community of eleven posts the report lacks the eleventh,
  which the full corpus ranks among its 20 best.
\<close>

theorem top_posts_not_full_corpus:
  "map_option r_top_posts
     (research_niche remdups two_communities eleven_and_two ''2024-01-01T00:00:00'' ''crm'' 5 50)
   \<noteq> Some (take 20 (sorted_desc post_score
        (fetched_posts eleven_and_two 50
           (discover_subreddits remdups two_communities ''crm'' 5))))"
proof
  assume a: "map_option r_top_posts
     (research_niche remdups two_communities eleven_and_two ''2024-01-01T00:00:00'' ''crm'' 5 50)
   = Some (take 20 (sorted_desc post_score
        (fetched_posts eleven_and_two 50
           (discover_subreddits remdups two_communities ''crm'' 5))))"
  from two_communities_report[of "''2024-01-01T00:00:00''"] obtain r where
    r: "research_niche remdups two_communities eleven_and_two ''2024-01-01T00:00:00'' ''crm'' 5 50
          = Some r"
    by blast
  from a have "r_top_posts r = take 20 (sorted_desc post_score
        (fetched_posts eleven_and_two 50
           (discover_subreddits remdups two_communities ''crm'' 5)))"
    unfolding r by simp
  then have "length (take 20 (sorted_desc post_score (kept_posts eleven_and_two 50
      (py_take 5 (discover_subreddits remdups two_communities ''crm'' 5))))) =
     length (take 20 (sorted_desc post_score
        (fetched_posts eleven_and_two 50
           (discover_subreddits remdups two_communities ''crm'' 5))))"
    by (simp only: report_top_posts(1)[OF r])
  moreover have "length (kept_posts eleven_and_two 50
      (py_take 5 (discover_subreddits remdups two_communities ''crm'' 5))) = 12"
    using arg_cong[OF two_communities_kept, of length] by simp
  moreover have "length (fetched_posts eleven_and_two 50
           (discover_subreddits remdups two_communities ''crm'' 5)) = 13"
    using arg_cong[OF two_communities_fetched, of length] by simp
  ultimately show False by (simp add: sorted_desc_def)
qed

text \<open>
  C6, amended. The report's \<open>top_posts\<close> are the first 10 posts fetched for each analyzed
  community, put together in community order, sorted by score in descending order (posts
  with equal scores keep their order) and cut to 20 entries. The report's count of analyzed
  posts still covers every post fetched.
\<close>

theorem top_posts_from_first_ten_per_community:
  fixes list_set :: "string list \<Rightarrow> string list"
    and search_subreddits :: "string \<Rightarrow> subreddit_data response"
    and get_top_posts_year :: "string \<Rightarrow> int \<Rightarrow> post response"
    and niche :: string and max_subreddits posts_per_subreddit :: int
  assumes "research_niche list_set search_subreddits get_top_posts_year now niche max_subreddits
             posts_per_subreddit = Some report"
  defines "analyzed \<equiv>
    py_take max_subreddits (discover_subreddits list_set search_subreddits niche max_subreddits)"
  shows "r_top_posts report =
           take 20 (sorted_desc post_score
             (kept_posts get_top_posts_year posts_per_subreddit analyzed))
       \<and> sorted_wrt (\<ge>) (map post_score (r_top_posts report))
       \<and> length (r_top_posts report) \<le> 20
       \<and> r_total_posts_analyzed report =
           length (fetched_posts get_top_posts_year posts_per_subreddit analyzed)"
proof -
  let ?kept = "kept_posts get_top_posts_year posts_per_subreddit analyzed"
  have top: "r_top_posts report = take 20 (sorted_desc post_score ?kept)"
    unfolding analyzed_def using assms(1) by (rule report_top_posts(1))
  have "sorted_wrt (\<ge>) (map post_score (sorted_desc post_score ?kept))"
    by (rule sorted_desc_props(3))
  then have ordered: "sorted_wrt (\<ge>) (map post_score (r_top_posts report))"
    unfolding top by (simp only: take_map[symmetric] sorted_wrt_take)
  have short: "length (r_top_posts report) \<le> 20"
    unfolding top by simp
  have total: "r_total_posts_analyzed report =
           length (fetched_posts get_top_posts_year posts_per_subreddit analyzed)"
    unfolding analyzed_def using assms(1) by (rule report_top_posts(2))
  from top ordered short total show ?thesis by blast
qed

theorem top_posts_from_first_ten_per_community_witness:
  "map post_score (r_top_posts (the
     (research_niche remdups two_communities eleven_and_two ''2024-01-01T00:00:00'' ''crm'' 5 50)))
   = [100, 99, 98, 97, 96, 95, 94, 93, 92, 91, 5, 4]"
proof -
  have s: "sorted_desc post_score xs = xs"
    if "map post_score xs = [100, 99, 98, 97, 96, 95, 94, 93, 92, 91, 5, 4]" for xs
  proof -
    have "sorted (map (\<lambda>x. - post_score x) xs)"
      using arg_cong[OF that, of "map uminus"] by (simp add: comp_def)
    then show ?thesis
      unfolding sorted_desc_def by (rule sort_key_id_if_sorted)
  qed
  from two_communities_report[of "''2024-01-01T00:00:00''"] obtain r where
    r: "research_niche remdups two_communities eleven_and_two ''2024-01-01T00:00:00'' ''crm'' 5 50
          = Some r"
    by blast
  from top_posts_from_first_ten_per_community [OF r, THEN conjunct1]
  have "map post_score (r_top_posts r) = [100, 99, 98, 97, 96, 95, 94, 93, 92, 91, 5, 4]"
    by (simp add: s[OF two_communities_kept] take_map[symmetric] two_communities_kept)
  then show ?thesis unfolding r by simp
qed

section \<open>Classification of text\<close>

lemma split_sentences_nonempty: "split_sentences t \<noteq> []"
  by (induction t) (auto split: list.split)

lemma split_sentences_append:
  "sentence_break c \<Longrightarrow> split_sentences (a @ c # b) = split_sentences a @ split_sentences b"
proof (induction a)
  case Nil
  then show ?case by simp
next
  case (Cons x a)
  then show ?case
    using split_sentences_nonempty[of a]
    by (cases "split_sentences a") auto
qed

lemma split_sentences_plain:
  "\<forall>c\<in>set t. \<not> sentence_break c \<Longrightarrow> split_sentences t = [t]"
  by (induction t) auto

lemma split_sentences_free:
  "s \<in> set (split_sentences t) \<Longrightarrow> c \<in> set s \<Longrightarrow> \<not> sentence_break c"
proof (induction t arbitrary: s)
  case Nil
  then show ?case by simp
next
  case (Cons x t)
  show ?case
  proof (cases "sentence_break x")
    case True
    with Cons.prems have "s = [] \<or> s \<in> set (split_sentences t)" by auto
    with Cons show ?thesis by auto
  next
    case False
    obtain u us where u: "split_sentences t = u # us"
      using split_sentences_nonempty[of t] by (cases "split_sentences t") auto
    with False Cons.prems have "s = x # u \<or> s \<in> set us" by auto
    then show ?thesis
    proof
      assume "s = x # u"
      with Cons.prems(2) have "c = x \<or> c \<in> set u" by auto
      with False Cons.IH[of u] u show ?thesis by auto
    next
      assume "s \<in> set us"
      with Cons.IH[of s] u Cons.prems(2) show ?thesis by auto
    qed
  qed
qed

lemma space_is_space: "py_isspace CHR '' ''"
  by (simp add: py_isspace_def)

lemma space_no_break: "\<not> sentence_break CHR '' ''" and dot_break: "sentence_break CHR ''.''"
  by (simp_all add: sentence_break_def)

lemma strip_leading_space: "strip (CHR '' '' # s) = strip s"
  by (simp add: strip_def space_is_space)

lemma segments_leading_space: "segments (CHR '' '' # b) = segments b"
proof -
  obtain u us where u: "split_sentences b = u # us"
    using split_sentences_nonempty[of b] by (cases "split_sentences b") auto
  then show ?thesis
    by (simp add: segments_def space_no_break strip_leading_space)
qed

lemma segments_title_body: "segments (t @ ''. '' @ b) = segments t @ segments b"
proof -
  have "split_sentences (t @ CHR ''.'' # (CHR '' '' # b)) =
          split_sentences t @ split_sentences (CHR '' '' # b)"
    by (rule split_sentences_append[OF dot_break])
  then have "segments (t @ CHR ''.'' # (CHR '' '' # b)) = segments t @ segments (CHR '' '' # b)"
    by (simp add: segments_def)
  then show ?thesis by (simp add: segments_leading_space)
qed

lemma extract_as_filter:
  "extract_sentence_with_pattern text k = filter (\<lambda>s. matches_patterns s k) (segments text)"
proof -
  have "filter (\<lambda>s. s \<noteq> [] \<and> matches_patterns s k) xs =
        filter (\<lambda>s. matches_patterns s k) (filter (\<lambda>s. s \<noteq> []) xs)" for xs
    by (induction xs) auto
  then show ?thesis by (simp add: extract_sentence_with_pattern_def segments_def)
qed

lemma strip_no_outer_space:
  assumes "strip s \<noteq> []"
  shows "\<not> py_isspace (hd (strip s))" and "\<not> py_isspace (last (strip s))"
proof -
  let ?t = "dropWhile py_isspace s"
  let ?u = "dropWhile py_isspace (rev ?t)"
  from assms have u: "?u \<noteq> []" by (simp add: strip_def)
  then have "\<not> py_isspace (hd ?u)" by (rule hd_dropWhile)
  then show "\<not> py_isspace (last (strip s))"
    using u by (simp add: strip_def last_rev)
  have "dropWhile py_isspace ?t = ?t" by (simp add: dropWhile_idem)
  from dropWhile_rev_prefix[OF this]
  have "dropWhile py_isspace (strip s) = strip s" by (simp add: strip_def)
  with assms show "\<not> py_isspace (hd (strip s))" by (metis hd_dropWhile)
qed

lemma segments_shape:
  assumes "s \<in> set (segments text)"
  shows "s \<noteq> []" and "\<forall>c\<in>set s. \<not> sentence_break c"
    and "\<not> py_isspace (hd s)" and "\<not> py_isspace (last s)"
proof -
  from assms obtain u where u: "u \<in> set (split_sentences text)" and s: "s = strip u"
    and n: "s \<noteq> []"
    by (auto simp: segments_def)
  show "s \<noteq> []" by (rule n)
  have "set (strip u) \<subseteq> set u"
  proof
    fix x assume "x \<in> set (strip u)"
    then have "x \<in> set (dropWhile py_isspace (rev (dropWhile py_isspace u)))"
      by (simp add: strip_def)
    then have "x \<in> set (rev (dropWhile py_isspace u))" by (rule set_dropWhileD)
    then have "x \<in> set (dropWhile py_isspace u)" by simp
    then show "x \<in> set u" by (rule set_dropWhileD)
  qed
  with split_sentences_free[OF u] s show "\<forall>c\<in>set s. \<not> sentence_break c" by blast
  from n strip_no_outer_space[of u] s
  show "\<not> py_isspace (hd s)" and "\<not> py_isspace (last s)" by simp_all
qed


lemma strip_empty_iff: "strip u = [] \<longleftrightarrow> (\<forall>c\<in>set u. py_isspace c)"
proof -
  have "strip u = [] \<longleftrightarrow> (\<forall>c\<in>set (dropWhile py_isspace u). py_isspace c)"
    by (simp add: strip_def dropWhile_eq_Nil_conv)
  also have "\<dots> \<longleftrightarrow> dropWhile py_isspace u = []"
  proof
    assume a: "\<forall>c\<in>set (dropWhile py_isspace u). py_isspace c"
    show "dropWhile py_isspace u = []"
    proof (rule ccontr)
      assume n: "dropWhile py_isspace u \<noteq> []"
      then have "\<not> py_isspace (hd (dropWhile py_isspace u))" by (rule hd_dropWhile)
      with a n show False by (metis hd_in_set)
    qed
  next
    assume e: "dropWhile py_isspace u = []"
    show "\<forall>c\<in>set (dropWhile py_isspace u). py_isspace c" unfolding e by simp
  qed
  also have "\<dots> \<longleftrightarrow> (\<forall>c\<in>set u. py_isspace c)"
    by (simp add: dropWhile_eq_Nil_conv)
  finally show ?thesis .
qed

lemma matches_patterns_iff:
  "matches_patterns s k \<longleftrightarrow> (\<exists>r\<in>set (compiled_patterns k). search r s)"
  by (simp add: matches_patterns_def list_ex_iff)

lemma compiled_patterns_known:
  "compiled_patterns ''pain'' = PAIN_PATTERNS"
  "compiled_patterns ''question'' = QUESTION_PATTERNS"
  "compiled_patterns ''request'' = REQUEST_PATTERNS"
  "compiled_patterns ''solution'' = SOLUTION_PATTERNS"
  "compiled_patterns ''belief'' = BELIEF_PATTERNS"
  by (simp_all add: compiled_patterns_def)

lemma analyze_post_buckets:
  "pain_points (analyze_post p) =
     filter (\<lambda>s. matches_patterns s ''pain'') (segments (get_or (title p) []) @ segments (post_body p))"
  "questions (analyze_post p) =
     filter (\<lambda>s. matches_patterns s ''question'') (segments (get_or (title p) []) @ segments (post_body p))"
  "requests (analyze_post p) =
     filter (\<lambda>s. matches_patterns s ''request'') (segments (get_or (title p) []) @ segments (post_body p))"
  "solutions (analyze_post p) =
     filter (\<lambda>s. matches_patterns s ''solution'') (segments (get_or (title p) []) @ segments (post_body p))"
  "beliefs (analyze_post p) =
     filter (\<lambda>s. matches_patterns s ''belief'') (segments (get_or (title p) []) @ segments (post_body p))"
  by (simp_all only: analyze_post_def Let_def insights.simps extract_as_filter segments_title_body)

text \<open>
  C1. The classifier cuts the text at every \<open>.\<close>, \<open>!\<close>, \<open>?\<close> and newline, strips each piece
  and drops the pieces that are empty or whitespace only. A segment is in a bucket exactly
  when some pattern of the bucket's family matches somewhere in it, whatever the other
  families say; every bucket lists its segments in text order, those of the title before
  those of the body.
\<close>

theorem classifier_buckets:
  fixes p :: post
  defines "segs \<equiv> segments (get_or (title p) []) @ segments (post_body p)"
  shows "(\<forall>a c b. sentence_break c \<longrightarrow>
            split_sentences (a @ c # b) = split_sentences a @ split_sentences b)
       \<and> (\<forall>t. (\<forall>c\<in>set t. \<not> sentence_break c) \<longrightarrow> split_sentences t = [t])
       \<and> (\<forall>text. segments text =
            map strip (filter (\<lambda>u. \<not> (\<forall>c\<in>set u. py_isspace c)) (split_sentences text)))
       \<and> (\<forall>text k. extract_sentence_with_pattern text k =
            filter (\<lambda>s. \<exists>r\<in>set (compiled_patterns k). search r s) (segments text))
       \<and> pain_points (analyze_post p) = filter (\<lambda>s. \<exists>r\<in>set PAIN_PATTERNS. search r s) segs
       \<and> questions (analyze_post p) = filter (\<lambda>s. \<exists>r\<in>set QUESTION_PATTERNS. search r s) segs
       \<and> requests (analyze_post p) = filter (\<lambda>s. \<exists>r\<in>set REQUEST_PATTERNS. search r s) segs
       \<and> solutions (analyze_post p) = filter (\<lambda>s. \<exists>r\<in>set SOLUTION_PATTERNS. search r s) segs
       \<and> beliefs (analyze_post p) = filter (\<lambda>s. \<exists>r\<in>set BELIEF_PATTERNS. search r s) segs"
proof -
  have 1: "\<forall>a c b. sentence_break c \<longrightarrow>
            split_sentences (a @ c # b) = split_sentences a @ split_sentences b"
    by (simp add: split_sentences_append)
  have 2: "\<forall>t. (\<forall>c\<in>set t. \<not> sentence_break c) \<longrightarrow> split_sentences t = [t]"
    by (simp add: split_sentences_plain)
  have 3: "\<forall>text. segments text =
            map strip (filter (\<lambda>u. \<not> (\<forall>c\<in>set u. py_isspace c)) (split_sentences text))"
    by (simp add: segments_def filter_map comp_def strip_empty_iff)
  have 4: "\<forall>text k. extract_sentence_with_pattern text k =
            filter (\<lambda>s. \<exists>r\<in>set (compiled_patterns k). search r s) (segments text)"
    by (simp only: extract_as_filter matches_patterns_iff) simp
  note b = analyze_post_buckets[of p, unfolded matches_patterns_iff compiled_patterns_known,
      folded segs_def]
  from 1 2 3 4 b show ?thesis by (intro conjI)
qed


theorem classifier_buckets_witness:
  "pain_points (analyze_post sample_post) = [''I hate the tools'']
   \<and> questions (analyze_post sample_post) = [''How do I bill'', ''Any tips'']"
proof -
  have p: "filter (\<lambda>s. \<exists>r\<in>set PAIN_PATTERNS. search r s)
      (segments (get_or (title sample_post) []) @ segments (post_body sample_post)) =
     [''I hate the tools'']"
    by code_simp
  have q: "filter (\<lambda>s. \<exists>r\<in>set QUESTION_PATTERNS. search r s)
      (segments (get_or (title sample_post) []) @ segments (post_body sample_post)) =
     [''How do I bill'', ''Any tips'']"
    by code_simp
  from classifier_buckets[of sample_post] p q show ?thesis by (simp only:)
qed

section \<open>Intent of a post\<close>

lemma py_lower_char_code:
  "(of_char (py_lower_char c) :: nat) =
     (if (65 \<le> (of_char c :: nat) \<and> (of_char c :: nat) \<le> 90) \<or>
         (192 \<le> (of_char c :: nat) \<and> (of_char c :: nat) \<le> 222 \<and> (of_char c :: nat) \<noteq> 215)
      then of_char c + 32 else of_char c)"
  by (simp add: py_lower_char_def Let_def of_char_of)

lemma py_lower_char_question: "py_lower_char c = CHR ''?'' \<longleftrightarrow> c = CHR ''?''"
proof -
  have "py_lower_char c = CHR ''?'' \<longleftrightarrow>
          (of_char (py_lower_char c) :: nat) = of_char CHR ''?''"
    by (simp only: of_char_eq_iff)
  also have "\<dots> \<longleftrightarrow> (of_char c :: nat) = 63"
    by (simp add: py_lower_char_code)
  also have "\<dots> \<longleftrightarrow> (of_char c :: nat) = of_char CHR ''?''" by simp
  also have "\<dots> \<longleftrightarrow> c = CHR ''?''" by (simp only: of_char_eq_iff)
  finally show ?thesis .
qed

lemma py_lower_char_newline: "py_lower_char c = CHR 0x0A \<longleftrightarrow> c = CHR 0x0A"
proof -
  have "py_lower_char c = CHR 0x0A \<longleftrightarrow>
          (of_char (py_lower_char c) :: nat) = of_char CHR 0x0A"
    by (simp only: of_char_eq_iff)
  also have "\<dots> \<longleftrightarrow> (of_char c :: nat) = 10"
    by (simp add: py_lower_char_code)
  also have "\<dots> \<longleftrightarrow> (of_char c :: nat) = of_char CHR 0x0A" by simp
  also have "\<dots> \<longleftrightarrow> c = CHR 0x0A" by (simp only: of_char_eq_iff)
  finally show ?thesis .
qed

lemma question_mark_lower: "CHR ''?'' \<in> set (lower t) \<longleftrightarrow> CHR ''?'' \<in> set t"
proof -
  have "CHR ''?'' \<in> set (lower t) \<longleftrightarrow> (\<exists>x\<in>set t. py_lower_char x = CHR ''?'')"
    by (force simp: lower_def image_iff)
  then show ?thesis by (simp only: py_lower_char_question) blast
qed

lemma word_at_lower: "word_at (lower t) i = word_at t i"
  by (auto simp: word_at_def lower_def is_word_char_lower)

lemma boundary_lower: "boundary (lower t) i = boundary t i"
  by (simp add: boundary_def word_at_lower)

lemma ci_prefix_lower: "ci_prefix a (map py_lower_char xs) = ci_prefix a xs"
  by (induction a xs rule: ci_prefix.induct) (simp_all add: py_lower_char_idem)

lemma matches_at_lower: "matches_at r (lower t) i = matches_at r t i"
proof (cases r)
  case (Words alts)
  have "ci_prefix a (drop i (lower t)) = ci_prefix a (drop i t)" for a
    by (simp add: lower_def drop_map ci_prefix_lower)
  then show ?thesis by (simp add: Words boundary_lower)
next
  case QuestionEnd
  have "lower t ! j = CHR ''?'' \<longleftrightarrow> t ! j = CHR ''?''" if "j < length t" for j
    using that by (simp add: lower_def py_lower_char_question)
  moreover have "lower t ! j = CHR 0x0A \<longleftrightarrow> t ! j = CHR 0x0A" if "j < length t" for j
    using that by (simp add: lower_def py_lower_char_newline)
  moreover have "length (lower t) = length t" by (simp add: lower_def)
  ultimately show ?thesis unfolding QuestionEnd by auto
qed

lemma search_lower: "search r (lower t) = search r t"
proof -
  have f: "matches_at r (lower t) = matches_at r t"
    by (rule ext) (rule matches_at_lower)
  have l: "length (lower t) = length t" by (simp add: lower_def)
  show ?thesis unfolding search_def f l ..
qed

lemma matches_patterns_lower: "matches_patterns (lower t) k = matches_patterns t k"
  by (simp add: matches_patterns_def search_lower)


text \<open>
  C2. \<open>categorize_post_by_intent\<close> reads the title only and returns one of five labels,
  the first that applies: \<open>question\<close> when the title has a \<open>?\<close> or a question pattern
  matches it; else \<open>complaint\<close> when a pain pattern matches; else \<open>request\<close> when a request
  pattern matches; else \<open>showcase\<close> when one of the fixed phrases occurs in the lowercased
  title; else \<open>discussion\<close>.
\<close>

theorem intent_first_match:
  fixes p :: post
  defines "t \<equiv> get_or (title p) []"
  shows "categorize_post_by_intent p =
           (if CHR ''?'' \<in> set t \<or> (\<exists>r\<in>set QUESTION_PATTERNS. search r t) then ''question''
            else if (\<exists>r\<in>set PAIN_PATTERNS. search r t) then ''complaint''
            else if (\<exists>r\<in>set REQUEST_PATTERNS. search r t) then ''request''
            else if (\<exists>w\<in>set [''i made'', ''i built'', ''i created'', ''check out'', ''showcase''].
                        contains w (lower t)) then ''showcase''
            else ''discussion'')
       \<and> categorize_post_by_intent p \<in>
           {''question'', ''complaint'', ''request'', ''showcase'', ''discussion''}"
proof -
  have 1: "categorize_post_by_intent p =
           (if CHR ''?'' \<in> set t \<or> (\<exists>r\<in>set QUESTION_PATTERNS. search r t) then ''question''
            else if (\<exists>r\<in>set PAIN_PATTERNS. search r t) then ''complaint''
            else if (\<exists>r\<in>set REQUEST_PATTERNS. search r t) then ''request''
            else if (\<exists>w\<in>set [''i made'', ''i built'', ''i created'', ''check out'', ''showcase''].
                        contains w (lower t)) then ''showcase''
            else ''discussion'')"
    unfolding categorize_post_by_intent_def Let_def t_def[symmetric] showcase_phrases_def
    by (simp only: question_mark_lower matches_patterns_lower search_lower matches_patterns_iff
          compiled_patterns_known list_ex_iff)
  have 2: "(if a then x1 else if b then x2 else if c then x3 else if d then x4 else x5)
           \<in> {x1, x2, x3, x4, x5}"
    for a b c d and x1 x2 x3 x4 x5 :: string
    by simp
  show ?thesis unfolding 1 using 2 by blast
qed

theorem intent_first_match_witness:
  "categorize_post_by_intent showcase_post = ''showcase''"
proof -
  have e: "(if CHR ''?'' \<in> set (get_or (title showcase_post) []) \<or>
               (\<exists>r\<in>set QUESTION_PATTERNS. search r (get_or (title showcase_post) []))
            then ''question''
            else if (\<exists>r\<in>set PAIN_PATTERNS. search r (get_or (title showcase_post) []))
            then ''complaint''
            else if (\<exists>r\<in>set REQUEST_PATTERNS. search r (get_or (title showcase_post) []))
            then ''request''
            else if (\<exists>w\<in>set [''i made'', ''i built'', ''i created'', ''check out'', ''showcase''].
                        contains w (lower (get_or (title showcase_post) [])))
            then ''showcase''
            else ''discussion'') = ''showcase''"
    by code_simp
  from intent_first_match[of showcase_post] e show ?thesis by (simp only:)
qed

section \<open>Absent fields\<close>

lemma search_empty: "\<not> search r []"
  by (cases r) (simp_all add: search_def boundary_def word_at_def)

lemma matches_patterns_empty: "\<not> matches_patterns [] k"
  by (simp add: matches_patterns_def list_ex_iff search_empty)

lemma segments_empty: "segments [] = []"
  by (simp add: segments_def strip_def)

lemma analyze_post_with_defaults: "analyze_post (with_defaults p) = analyze_post p"
  by (simp add: analyze_post_def with_defaults_def post_body_def get_or_def)

lemma categorize_with_defaults:
  "categorize_post_by_intent (with_defaults p) = categorize_post_by_intent p"
  by (simp add: categorize_post_by_intent_def with_defaults_def get_or_def)

lemma analyze_post_blank:
  assumes "get_or (title p) [] = []" and "post_body p = []"
  shows "analyze_post p = empty_insights"
  unfolding analyze_post_def Let_def assms empty_insights_def extract_as_filter
    segments_title_body segments_empty
  by simp

lemma categorize_blank:
  assumes "get_or (title p) [] = []"
  shows "categorize_post_by_intent p = ''discussion''"
proof -
  have l: "lower [] = []" by (simp add: lower_def)
  have c: "\<not> list_ex (\<lambda>word. contains word []) showcase_phrases"
    by (simp add: showcase_phrases_def)
  show ?thesis
    unfolding categorize_post_by_intent_def Let_def assms l
    using c by (simp add: matches_patterns_empty)
qed

text \<open>
  On posts whose present text fields are strings, the analyzer reads every text field with
  the empty string as its default, so a post gives the results of the post that stores the
  empty string under each absent key. A post whose title, selftext and body are each absent
  or empty has five empty buckets and the intent \<open>discussion\<close>. What happens when a key
  holds a value that is no string is settled in the last section.
\<close>

theorem absent_fields_default:
  "analyze_post p = analyze_post (with_defaults p)
   \<and> categorize_post_by_intent p = categorize_post_by_intent (with_defaults p)
   \<and> (title p \<in> {None, Some []} \<and> selftext p \<in> {None, Some []} \<and> body p \<in> {None, Some []}
        \<longrightarrow> analyze_post p = empty_insights
            \<and> categorize_post_by_intent p = ''discussion'')"
proof -
  have "analyze_post p = empty_insights \<and> categorize_post_by_intent p = ''discussion''"
    if "title p \<in> {None, Some []}" "selftext p \<in> {None, Some []}" "body p \<in> {None, Some []}"
  proof -
    from that have t: "get_or (title p) [] = []" and b: "post_body p = []"
      by (auto simp: get_or_def post_body_def)
    from analyze_post_blank[OF t b] categorize_blank[OF t] show ?thesis by simp
  qed
  then show ?thesis
    by (simp only: analyze_post_with_defaults categorize_with_defaults) blast
qed

theorem absent_fields_default_witness:
  "analyze_post bare_post = empty_insights \<and> categorize_post_by_intent bare_post = ''discussion''"
proof -
  have h: "title bare_post \<in> {None, Some []} \<and> selftext bare_post \<in> {None, Some []}
           \<and> body bare_post \<in> {None, Some []}"
    by (simp add: bare_post_def)
  from absent_fields_default[of bare_post] h show ?thesis by blast
qed

section \<open>Themes\<close>





















section \<open>Fields that hold no string\<close>

lemma analyze_post_as_values: "analyze_post_any (as_values p) = analyze_post p"
  by (cases "title p"; cases "selftext p"; cases "body p")
     (simp_all add: analyze_post_any_def analyze_post_def as_values_def post_body_def get_or_def
        truthy_def py_str_def)

lemma categorize_as_values:
  "categorize_post_by_intent_any (as_values p) = Inr (categorize_post_by_intent p)"
  by (cases "title p")
     (simp_all add: categorize_post_by_intent_any_def categorize_post_by_intent_def as_values_def
        get_or_def Let_def)

lemma categorize_any_raises_iff:
  "categorize_post_by_intent_any p = Inl AttributeError
     \<longleftrightarrow> (\<exists>v. any_title p = Some v \<and> (\<forall>s. v \<noteq> PyStr s))"
proof (cases "any_title p")
  case None
  then show ?thesis
    by (simp add: categorize_post_by_intent_any_def get_or_def Let_def)
next
  case (Some v)
  then show ?thesis
    by (cases v) (simp_all add: categorize_post_by_intent_any_def get_or_def Let_def)
qed

lemma categorize_any_label:
  assumes "any_title p = None \<or> (\<exists>s. any_title p = Some (PyStr s))"
  shows "\<exists>label. categorize_post_by_intent_any p = Inr label"
proof -
  from assms obtain s where "get_or (any_title p) (PyStr []) = PyStr s"
    by (auto simp: get_or_def)
  then show ?thesis
    by (simp add: categorize_post_by_intent_any_def Let_def)
qed

text \<open>
  C3. Classification would never raise on any input record. The code raises on the
  dictionary \<open>{'title': None}\<close>: \<open>post.get('title', '')\<close> returns the stored \<open>None\<close>, the
  default is not used, and \<open>.lower()\<close> fails with \<open>AttributeError\<close> in
  \<open>categorize_post_by_intent\<close>. \<open>analyze_post\<close> formats the same value in an f-string,
  returns, and finds nothing in the text \<open>None\<close>.
\<close>

theorem null_title_raises:
  "categorize_post_by_intent_any null_title_post = Inl AttributeError
   \<and> analyze_post_any null_title_post = empty_insights"
proof -
  have 1: "categorize_post_by_intent_any null_title_post = Inl AttributeError"
    by (simp add: categorize_post_by_intent_any_def null_title_post_def get_or_def)
  have 2: "analyze_post_any null_title_post = empty_insights"
    by code_simp
  from 1 2 show ?thesis by blast
qed

end
